theory Spec2Isabelle
  imports Main "HOL-Library.Word"
begin

unbundle bit_operations_syntax

section \<open>mkbox.c: the sandbox bootstrap, as a program over an abstract kernel\<close>

text \<open>
  \<^verbatim>\<open>cmd/zoekt-sandbox/mkbox.c\<close> is one \<^verbatim>\<open>main\<close> that issues system calls in a fixed
  order, driven by \<^verbatim>\<open>getopt\<close>. The embedding keeps that shape. A system call is a value
  of the datatype \<open>syscall\<close>; the kernel is a parameter, a function from the calls made so
  far and the next call to that call's return value (and, for \<^verbatim>\<open>stat\<close> and
  \<^verbatim>\<open>lstat\<close>, the \<^verbatim>\<open>st_mode\<close> it stores). The process state is the trace of calls with
  their return values and the diagnostics written to stderr. \<^verbatim>\<open>exit(-1)\<close>, a successful
  \<^verbatim>\<open>execv\<close> and a write beyond a stack buffer end the run with an \<open>outcome\<close>.
\<close>

subsection \<open>Constants of the Linux headers\<close>

text \<open>
  The values of \<^verbatim>\<open>sys/mount.h\<close>, \<^verbatim>\<open>sched.h\<close>, \<^verbatim>\<open>fcntl.h\<close>, \<^verbatim>\<open>sys/stat.h\<close>,
  \<^verbatim>\<open>sys/prctl.h\<close>, \<^verbatim>\<open>signal.h\<close> and \<^verbatim>\<open>linux/capability.h\<close> on Linux (generic ABI).
  Mount flags are \<^verbatim>\<open>unsigned long\<close>, the other flag words are \<^verbatim>\<open>int\<close>,
  \<^verbatim>\<open>mode_t\<close>, \<^verbatim>\<open>uid_t\<close> and \<^verbatim>\<open>gid_t\<close> are 32-bit unsigned.
\<close>

definition MS_RDONLY :: "64 word" where "MS_RDONLY = 1"
definition MS_NOSUID :: "64 word" where "MS_NOSUID = 2"
definition MS_NODEV :: "64 word" where "MS_NODEV = 4"
definition MS_NOEXEC :: "64 word" where "MS_NOEXEC = 8"
definition MS_REMOUNT :: "64 word" where "MS_REMOUNT = 32"
definition MS_NOATIME :: "64 word" where "MS_NOATIME = 1024"
definition MS_BIND :: "64 word" where "MS_BIND = 4096"
definition MS_REC :: "64 word" where "MS_REC = 16384"
definition MS_PRIVATE :: "64 word" where "MS_PRIVATE = 262144"

definition MNT_DETACH :: "32 word" where "MNT_DETACH = 2"

definition CLONE_NEWNS :: "32 word" where "CLONE_NEWNS = 0x00020000"
definition CLONE_NEWUTS :: "32 word" where "CLONE_NEWUTS = 0x04000000"
definition CLONE_NEWIPC :: "32 word" where "CLONE_NEWIPC = 0x08000000"
definition CLONE_NEWUSER :: "32 word" where "CLONE_NEWUSER = 0x10000000"
definition CLONE_NEWPID :: "32 word" where "CLONE_NEWPID = 0x20000000"
definition CLONE_NEWNET :: "32 word" where "CLONE_NEWNET = 0x40000000"

definition O_WRONLY :: "32 word" where "O_WRONLY = 1"
definition O_CREAT :: "32 word" where "O_CREAT = 64"
definition O_EXCL :: "32 word" where "O_EXCL = 128"

definition S_IFMT :: "32 word" where "S_IFMT = 61440"
definition S_IFDIR :: "32 word" where "S_IFDIR = 16384"

definition S_ISDIR :: "32 word \<Rightarrow> bool" where
  "S_ISDIR m = (m AND S_IFMT = S_IFDIR)"

definition PR_SET_PDEATHSIG :: int where "PR_SET_PDEATHSIG = 1"
definition SIGKILL :: int where "SIGKILL = 9"

definition LINUX_CAPABILITY_VERSION_3 :: "32 word" where
  "LINUX_CAPABILITY_VERSION_3 = 0x20080522"
definition LINUX_CAPABILITY_U32S_3 :: nat where "LINUX_CAPABILITY_U32S_3 = 2"

text \<open>The octal literals \<^verbatim>\<open>0755\<close> and \<^verbatim>\<open>0666\<close> of the source.\<close>

definition mode_0755 :: "32 word" where "mode_0755 = 493"
definition mode_0666 :: "32 word" where "mode_0666 = 438"

subsection \<open>System calls, diagnostics, outcomes\<close>

text \<open>
  One constructor for each system call \<^verbatim>\<open>main\<close>, \<^verbatim>\<open>dropcaps\<close> and
  \<^verbatim>\<open>recursive_mkdir\<close> make, with the arguments as passed. A \<^verbatim>\<open>NULL\<close> pointer is
  \<open>None\<close>. \<open>Capset\<close> carries the header's version and pid and the words of the data
  array.
\<close>

datatype syscall =
    Prctl int int
  | Unshare "32 word"
  | Setdomainname string nat
  | Sethostname string nat
  | Mount string string "string option" "64 word" "string option"
  | Chdir string
  | Stat string
  | Lstat string
  | Mkdir string "32 word"
  | Open string "32 word" "32 word option"
  | Close int
  | Write int string nat
  | Setresuid "32 word" "32 word" "32 word"
  | Setresgid "32 word" "32 word" "32 word"
  | Pivot_root string string
  | Chroot string
  | Umount2 string "32 word"
  | Rmdir string
  | Capset "32 word" int "32 word list"
  | Execv "string option" "string list"

text \<open>
  What goes to stderr: the informational lines (suppressed by \<^verbatim>\<open>-q\<close>), the text of an
  \<^verbatim>\<open>errorf\<close>, the report of \<^verbatim>\<open>checkreturn\<close> (the function's name and its result; the
  line number, the argument text and errno are not modelled) and the report of a failed
  \<^verbatim>\<open>mkdir\<close> in \<^verbatim>\<open>recursive_mkdir\<close>.
\<close>

datatype diag =
    Info string
  | Errorf string
  | Failed string int
  | MkdirFailed string

text \<open>
  \<open>Exited n\<close>: the process called \<^verbatim>\<open>exit\<close> and its parent sees status \<open>n\<close>.
  \<open>Execed\<close>: \<^verbatim>\<open>execv\<close> succeeded and the image is replaced. \<open>Overrun\<close>:
  \<^verbatim>\<open>strncpy\<close> filled or overran \<^verbatim>\<open>char path[1024]\<close> (undefined behaviour).
\<close>

datatype outcome = Exited nat | Execed | Overrun

record proc =
  trace :: "(syscall \<times> int) list"
  err :: "diag list"

type_synonym kernel = "(syscall \<times> int) list \<Rightarrow> syscall \<Rightarrow> int \<times> 32 word"

type_synonym 'a prog = "proc \<Rightarrow> (outcome + 'a) \<times> proc"

definition ret :: "'a \<Rightarrow> 'a prog" where
  "ret a s = (Inr a, s)"

definition halt :: "outcome \<Rightarrow> 'a prog" where
  "halt e s = (Inl e, s)"

definition bnd :: "'a prog \<Rightarrow> ('a \<Rightarrow> 'b prog) \<Rightarrow> 'b prog" where
  "bnd m f s = (case m s of (Inl e, s') \<Rightarrow> (Inl e, s') | (Inr a, s') \<Rightarrow> f a s')"

definition eprint :: "diag \<Rightarrow> unit prog" where
  "eprint d s = (Inr (), s\<lparr>err := err s @ [d]\<rparr>)"

definition sys :: "kernel \<Rightarrow> syscall \<Rightarrow> (int \<times> 32 word) prog" where
  "sys k c s = (let (r, m) = k (trace s) c in (Inr (r, m), s\<lparr>trace := trace s @ [(c, r)]\<rparr>))"

definition call :: "kernel \<Rightarrow> syscall \<Rightarrow> int prog" where
  "call k c = bnd (sys k c) (\<lambda>(r, m). ret r)"

text \<open>\<^verbatim>\<open>exit(-1)\<close>: the status a parent reads is the low byte.\<close>

definition exit_status :: "int \<Rightarrow> nat" where
  "exit_status n = nat (n mod 256)"

definition exit_prog :: "int \<Rightarrow> 'a prog" where
  "exit_prog n = halt (Exited (exit_status n))"

text \<open>\<^verbatim>\<open>#define errorf(...) do { fprintf(stderr, __VA_ARGS__); exit(-1); } while (0)\<close>\<close>

definition errorf :: "string \<Rightarrow> 'a prog" where
  "errorf msg = bnd (eprint (Errorf msg)) (\<lambda>_. exit_prog (- 1))"

definition checkreturn :: "int \<Rightarrow> string \<Rightarrow> int prog" where
  "checkreturn res name =
     (if res \<ge> 0 then ret res
      else bnd (eprint (Failed name res)) (\<lambda>_. exit_prog (- 1)))"

text \<open>
  \<^verbatim>\<open>#define ok(fname, arg...) checkreturn(fname(arg), #fname, #arg, __LINE__)\<close>.
  \<open>ok_stat\<close> is the same macro for \<^verbatim>\<open>stat\<close>, where the caller reads the buffer
  afterwards.
\<close>

definition ok_stat :: "kernel \<Rightarrow> string \<Rightarrow> syscall \<Rightarrow> (int \<times> 32 word) prog" where
  "ok_stat k name c = bnd (sys k c) (\<lambda>(r, m). bnd (checkreturn r name) (\<lambda>r'. ret (r', m)))"

definition ok :: "kernel \<Rightarrow> string \<Rightarrow> syscall \<Rightarrow> int prog" where
  "ok k name c = bnd (ok_stat k name c) (\<lambda>(r, m). ret r)"

subsection \<open>The C library: strings, \<^verbatim>\<open>%d\<close>, \<^verbatim>\<open>getopt\<close>\<close>

text \<open>\<^verbatim>\<open>strchrnul(s, c) - s\<close>: the offset of the first \<open>c\<close>, or the length.\<close>

fun strchrnul :: "string \<Rightarrow> char \<Rightarrow> nat" where
  "strchrnul [] c = 0"
| "strchrnul (x # xs) c = (if x = c then 0 else Suc (strchrnul xs c))"

text \<open>\<^verbatim>\<open>strchr(s, c)\<close> for a \<open>c\<close> other than NUL: the offset, or \<open>None\<close> for \<^verbatim>\<open>NULL\<close>.\<close>

definition strchr :: "string \<Rightarrow> char \<Rightarrow> nat option" where
  "strchr s c = (let i = strchrnul s c in if i < length s then Some i else None)"

text \<open>\<^verbatim>\<open>%d\<close> of \<^verbatim>\<open>printf\<close>.\<close>

definition digit_char :: "nat \<Rightarrow> char" where
  "digit_char d = ''0123456789'' ! d"

function show_nat :: "nat \<Rightarrow> string" where
  "show_nat n = (if n < 10 then [digit_char n] else show_nat (n div 10) @ [digit_char (n mod 10)])"
  by pat_completeness auto
termination
  by (relation "measure id") auto

definition show_int :: "int \<Rightarrow> string" where
  "show_int i = (if i < 0 then CHR ''-'' # show_nat (nat (- i)) else show_nat (nat i))"

text \<open>
  \<^verbatim>\<open>sscanf(s, "%d", &n)\<close> as glibc on LP64 does it: white space is skipped, an optional
  sign and then at least one decimal digit are read, the digits go through \<^verbatim>\<open>strtol\<close>
  (which clamps to the range of \<^verbatim>\<open>long\<close>) and the result is stored as an \<^verbatim>\<open>int\<close>
  (the low 32 bits, signed). \<open>None\<close> when no conversion happens (\<^verbatim>\<open>sscanf\<close> returns 0
  or \<^verbatim>\<open>EOF\<close>, in both cases not 1).
\<close>

definition isspace :: "char \<Rightarrow> bool" where
  "isspace c = (c = CHR '' '' \<or> (9 \<le> (of_char c :: nat) \<and> (of_char c :: nat) \<le> 13))"

definition isdigit :: "char \<Rightarrow> bool" where
  "isdigit c = (48 \<le> (of_char c :: nat) \<and> (of_char c :: nat) \<le> 57)"

definition digits_value :: "string \<Rightarrow> nat" where
  "digits_value ds = foldl (\<lambda>acc c. 10 * acc + (of_char c - 48)) 0 ds"

definition strtol_clamp :: "int \<Rightarrow> int" where
  "strtol_clamp n = max (- (2 ^ 63)) (min (2 ^ 63 - 1) n)"

definition to_int32 :: "int \<Rightarrow> int" where
  "to_int32 n = sint (word_of_int n :: 32 word)"

definition sscanf_d :: "string \<Rightarrow> int option" where
  "sscanf_d s =
     (let t = dropWhile isspace s;
          neg = (t \<noteq> [] \<and> hd t = CHR ''-'');
          u = (if t \<noteq> [] \<and> (hd t = CHR ''-'' \<or> hd t = CHR ''+'') then tl t else t);
          ds = takeWhile isdigit u
      in if ds = [] then None
         else Some (to_int32 (strtol_clamp
                (if neg then - int (digits_value ds) else int (digits_value ds)))))"

text \<open>
  \<^verbatim>\<open>getopt\<close> of glibc for an option string that starts with \<^verbatim>\<open>+\<close> (stop at the first
  argument that is not an option) and has no long options. The state is glibc's
  \<^verbatim>\<open>__nextchar\<close> (what is left of the argument being scanned) and \<open>rest\<close>, the
  arguments after that one: when \<open>nextchar\<close> is empty, \<open>rest\<close> is \<^verbatim>\<open>argv + optind\<close>.
  The result is \<open>None\<close> for \<^verbatim>\<open>-1\<close>, else the option character and \<^verbatim>\<open>optarg\<close>;
  an unknown option and a missing argument give \<^verbatim>\<open>'?'\<close>.
\<close>

record getopt_state =
  nextchar :: string
  rest :: "string list"

definition opt_kind :: "string \<Rightarrow> char \<Rightarrow> bool option" where
  "opt_kind os c =
     (if c = CHR '':'' \<or> c = CHR '';'' then None
      else case strchr os c of
             None \<Rightarrow> None
           | Some i \<Rightarrow> Some (Suc i < length os \<and> os ! Suc i = CHR '':''))"

definition getopt_take ::
  "string \<Rightarrow> char \<Rightarrow> string \<Rightarrow> string list \<Rightarrow> (char \<times> string) option \<times> getopt_state" where
  "getopt_take os c nc as =
     (case opt_kind os c of
        None \<Rightarrow> (Some (CHR ''?'', []), \<lparr>nextchar = nc, rest = as\<rparr>)
      | Some False \<Rightarrow> (Some (c, []), \<lparr>nextchar = nc, rest = as\<rparr>)
      | Some True \<Rightarrow>
          (if nc \<noteq> [] then (Some (c, nc), \<lparr>nextchar = [], rest = as\<rparr>)
           else case as of
                  [] \<Rightarrow> (Some (CHR ''?'', []), \<lparr>nextchar = [], rest = []\<rparr>)
                | b # bs \<Rightarrow> (Some (c, b), \<lparr>nextchar = [], rest = bs\<rparr>)))"

definition getopt :: "getopt_state \<Rightarrow> string \<Rightarrow> (char \<times> string) option \<times> getopt_state" where
  "getopt g optstring =
     (let os = (if optstring \<noteq> [] \<and> hd optstring = CHR ''+'' then tl optstring else optstring)
      in case nextchar g of
           c # nc \<Rightarrow> getopt_take os c nc (rest g)
         | [] \<Rightarrow>
            (case rest g of
               [] \<Rightarrow> (None, g)
             | a # as \<Rightarrow>
                 if a = ''--'' then (None, g\<lparr>rest := as\<rparr>)
                 else if length a < 2 \<or> hd a \<noteq> CHR ''-'' then (None, g)
                 else getopt_take os (a ! 1) (drop 2 a) as))"


subsection \<open>\<^verbatim>\<open>dropcaps\<close> and \<^verbatim>\<open>recursive_mkdir\<close>\<close>

text \<open>
  \<^verbatim>\<open>dropcaps\<close>: a version-3 header for the calling process (pid 0) and a data array of
  \<^verbatim>\<open>_LINUX_CAPABILITY_U32S_3\<close> structs (effective, permitted, inheritable), all zero.
\<close>

definition dropcaps :: syscall where
  "dropcaps = Capset LINUX_CAPABILITY_VERSION_3 0 (replicate (3 * LINUX_CAPABILITY_U32S_3) 0)"

text \<open>
  The loop of \<^verbatim>\<open>recursive_mkdir\<close>, with the variable \<^verbatim>\<open>end\<close> as an argument.
  \<^verbatim>\<open>endp - dir\<close> is \<open>e\<close>; \<^verbatim>\<open>strncpy\<close> copies that many bytes into the zeroed
  \<^verbatim>\<open>char path[1024]\<close>, so from 1024 bytes on the buffer has no terminator or is
  overrun. A component is skipped when \<^verbatim>\<open>lstat\<close> succeeds and the mode has a bit in
  common with \<^verbatim>\<open>S_IFDIR\<close>; otherwise \<^verbatim>\<open>mkdir\<close> is called and its failure is fatal.
\<close>

function recursive_mkdir_loop :: "kernel \<Rightarrow> string \<Rightarrow> 32 word \<Rightarrow> nat \<Rightarrow> unit prog" where
  "recursive_mkdir_loop k dir mode end =
     (if end < length dir then
        (let e = end + 1 + strchrnul (drop (end + 1) dir) CHR ''/'';
             path = take e dir
         in if 1024 \<le> e then halt Overrun
            else bnd (sys k (Lstat path)) (\<lambda>(r, m).
                   if r \<ge> 0 \<and> m AND S_IFDIR \<noteq> 0 then recursive_mkdir_loop k dir mode e
                   else bnd (call k (Mkdir path mode)) (\<lambda>r'.
                          if r' < 0 then bnd (eprint (MkdirFailed path)) (\<lambda>_. exit_prog (- 1))
                          else recursive_mkdir_loop k dir mode e)))
      else ret ())"
  by pat_completeness auto
termination
  by (relation "measure (\<lambda>(k, dir, mode, end). length dir - end)") auto

declare recursive_mkdir_loop.simps [simp del]

definition recursive_mkdir :: "kernel \<Rightarrow> string \<Rightarrow> 32 word \<Rightarrow> unit prog" where
  "recursive_mkdir k dir mode = recursive_mkdir_loop k dir mode 0"

subsection \<open>\<^verbatim>\<open>main\<close>\<close>

text \<open>The locals of \<^verbatim>\<open>main\<close> that the option loop updates.\<close>

record vars =
  verbose :: bool
  root_set :: bool
  child_dir :: "string option"
  binary :: "string option"

definition my_domain :: string where "my_domain = ''localdomain''"
definition my_host :: string where "my_host = ''localhost''"

definition nl :: string where "nl = [CHR 0x0A]"

definition info :: "vars \<Rightarrow> string \<Rightarrow> unit prog" where
  "info v msg = (if verbose v then eprint (Info msg) else ret ())"

text \<open>
  \<^verbatim>\<open>case 's'\<close>. The first \<^verbatim>\<open>mount\<close> is called bare, its result dropped; the second
  and the \<^verbatim>\<open>chdir\<close> go through \<^verbatim>\<open>ok\<close>.
\<close>

definition opt_s :: "kernel \<Rightarrow> vars \<Rightarrow> string \<Rightarrow> vars prog" where
  "opt_s k v optarg =
     bnd (call k (Mount ''none'' ''/'' None (MS_REC OR MS_PRIVATE) None)) (\<lambda>_.
     bnd (ok k ''mount'' (Mount optarg optarg None (MS_BIND OR MS_NOSUID) None)) (\<lambda>_.
     bnd (info v (''root dir: '' @ optarg @ nl)) (\<lambda>_.
     bnd (ok k ''chdir'' (Chdir optarg)) (\<lambda>_.
     ret (v\<lparr>root_set := True\<rparr>)))))"

text \<open>
  \<^verbatim>\<open>case 'b'\<close>, from the test of \<^verbatim>\<open>S_ISDIR(buf.st_mode)\<close> on: a directory is
  bound recursively on a destination that \<^verbatim>\<open>recursive_mkdir\<close> creates when
  \<^verbatim>\<open>lstat\<close> fails; anything else is bound on a file opened with
  \<^verbatim>\<open>O_WRONLY|O_CREAT\<close>.
\<close>

definition bind_onto :: "kernel \<Rightarrow> string \<Rightarrow> string \<Rightarrow> 32 word \<Rightarrow> unit prog" where
  "bind_onto k src dst st_mode =
     (if S_ISDIR st_mode then
        bnd (call k (Lstat dst)) (\<lambda>r'.
        bnd (if r' < 0 then recursive_mkdir k dst mode_0755 else ret ()) (\<lambda>_.
        bnd (ok k ''mount'' (Mount src dst None (MS_REC OR MS_BIND) None)) (\<lambda>_.
        ret ())))
      else
        bnd (ok k ''open'' (Open dst (O_WRONLY OR O_CREAT) (Some mode_0666))) (\<lambda>fd.
        bnd (ok k ''close'' (Close fd)) (\<lambda>_.
        bnd (ok k ''mount'' (Mount src dst None MS_BIND None)) (\<lambda>_.
        ret ()))))"

text \<open>
  \<^verbatim>\<open>case 'b'\<close>. \<open>i\<close> is the offset of the first \<^verbatim>\<open>=\<close>; \<^verbatim>\<open>dst[1]\<close> is the byte after
  it (the terminator when \<^verbatim>\<open>=\<close> is last). After the checks the argument is cut at
  \<^verbatim>\<open>=\<close>: \<open>src\<close> before it, \<open>dst\<close> after it.
\<close>

definition opt_b :: "kernel \<Rightarrow> vars \<Rightarrow> string \<Rightarrow> vars prog" where
  "opt_b k v optarg =
     (case strchr optarg CHR ''='' of
        None \<Rightarrow> errorf (''argument must have '' @ [CHR 0x27] @ ''='' @ [CHR 0x27] @ '': '' @ optarg)
      | Some i \<Rightarrow>
          if Suc i < length optarg \<and> optarg ! Suc i = CHR ''/'' then
            errorf (''destination for '' @ optarg @ '' must be relative to sandbox root.'' @ nl)
          else
            (let dst = drop (Suc i) optarg; src = take i optarg in
             bnd (info v (''mount: '' @ src @ '' => '' @ dst @ nl)) (\<lambda>_.
             bnd (ok_stat k ''stat'' (Stat src)) (\<lambda>(r, st_mode).
             bnd (bind_onto k src dst st_mode) (\<lambda>_.
             ret v)))))"

text \<open>\<^verbatim>\<open>case 't'\<close>.\<close>

definition opt_t :: "kernel \<Rightarrow> vars \<Rightarrow> string \<Rightarrow> vars prog" where
  "opt_t k v optarg =
     bnd (info v (''tmp: '' @ optarg @ nl)) (\<lambda>_.
     bnd (call k (Lstat optarg)) (\<lambda>r.
     bnd (if r < 0 then recursive_mkdir k optarg mode_0755 else ret ()) (\<lambda>_.
     bnd (ok k ''mount'' (Mount ''sandbox-tmp'' optarg (Some ''tmpfs'')
            (MS_NOSUID OR MS_NOEXEC OR MS_NOATIME)
            (Some ''size=16m,nr_inodes=16k,mode=755''))) (\<lambda>_.
     ret v))))"

text \<open>
  \<^verbatim>\<open>case 'u'\<close>. \<^verbatim>\<open>uid\<close> is a \<^verbatim>\<open>uid_t\<close> that \<^verbatim>\<open>sprintf\<close> prints with \<^verbatim>\<open>%d\<close>, that
  is, as a signed 32-bit integer; \<^verbatim>\<open>setresuid\<close> takes \<^verbatim>\<open>newuid\<close> converted to
  \<^verbatim>\<open>uid_t\<close>.
\<close>

definition id_line :: "int \<Rightarrow> 32 word \<Rightarrow> string" where
  "id_line new old = show_int new @ '' '' @ show_int (sint old) @ '' 1'' @ nl"

definition opt_u :: "kernel \<Rightarrow> 32 word \<Rightarrow> vars \<Rightarrow> string \<Rightarrow> vars prog" where
  "opt_u k uid v optarg =
     (case sscanf_d optarg of
        None \<Rightarrow> errorf (''could not parse '' @ optarg)
      | Some newuid \<Rightarrow>
          (let buf = id_line newuid uid in
           bnd (ok k ''open'' (Open ''/proc/self/uid_map'' O_WRONLY None)) (\<lambda>fd.
           bnd (ok k ''write'' (Write fd buf (length buf))) (\<lambda>_.
           bnd (ok k ''close'' (Close fd)) (\<lambda>_.
           bnd (ok k ''setresuid''
                  (Setresuid (word_of_int newuid) (word_of_int newuid) (word_of_int newuid))) (\<lambda>_.
           ret v))))))"

text \<open>
  \<^verbatim>\<open>case 'g'\<close>. The \<^verbatim>\<open>open\<close> of \<^verbatim>\<open>/proc/self/setgroups\<close> is called bare and the
  guard is written only when \<^verbatim>\<open>fd > 0\<close>.
\<close>

definition opt_g :: "kernel \<Rightarrow> 32 word \<Rightarrow> vars \<Rightarrow> string \<Rightarrow> vars prog" where
  "opt_g k gid v optarg =
     bnd (call k (Open ''/proc/self/setgroups'' O_WRONLY None)) (\<lambda>fd.
     bnd (if fd > 0 then
            bnd (ok k ''write'' (Write fd ''deny'' (length ''deny''))) (\<lambda>_.
            bnd (ok k ''close'' (Close fd)) (\<lambda>_. ret ()))
          else ret ()) (\<lambda>_.
     case sscanf_d optarg of
       None \<Rightarrow> errorf (''could not parse '' @ optarg)
     | Some newgid \<Rightarrow>
         (let buf = id_line newgid gid in
          bnd (ok k ''open'' (Open ''/proc/self/gid_map'' O_WRONLY None)) (\<lambda>fd'.
          bnd (ok k ''write'' (Write fd' buf (length buf))) (\<lambda>_.
          bnd (ok k ''close'' (Close fd')) (\<lambda>_.
          bnd (ok k ''setresgid''
                 (Setresgid (word_of_int newgid) (word_of_int newgid) (word_of_int newgid))) (\<lambda>_.
          ret v)))))))"

text \<open>
  The \<^verbatim>\<open>switch\<close>. \<^verbatim>\<open>r\<close> and \<^verbatim>\<open>Z\<close> are in the option string but have no case, so
  they reach \<^verbatim>\<open>default\<close> as \<^verbatim>\<open>'?'\<close> does.
\<close>

definition switch_opt :: "kernel \<Rightarrow> 32 word \<Rightarrow> 32 word \<Rightarrow> vars \<Rightarrow> char \<Rightarrow> string \<Rightarrow> vars prog" where
  "switch_opt k uid gid v opt optarg =
     (if opt = CHR ''q'' then ret (v\<lparr>verbose := False\<rparr>)
      else if opt = CHR ''s'' then opt_s k v optarg
      else if opt = CHR ''B'' then ret (v\<lparr>binary := Some optarg\<rparr>)
      else if opt = CHR ''b'' then opt_b k v optarg
      else if opt = CHR ''t'' then opt_t k v optarg
      else if opt = CHR ''u'' then opt_u k uid v optarg
      else if opt = CHR ''g'' then opt_g k gid v optarg
      else if opt = CHR ''d'' then ret (v\<lparr>child_dir := Some optarg\<rparr>)
      else if opt = CHR ''D'' then bnd (recursive_mkdir k optarg mode_0755) (\<lambda>_. ret v)
      else errorf (''option '' @ [opt] @ '' unknown''))"

definition optstring :: string where
  "optstring = ''+b:B:d:D:g:qr:s:t:u:Z''"

text \<open>The size of what \<^verbatim>\<open>getopt\<close> has left to scan: it shrinks with every option.\<close>

definition getopt_left :: "getopt_state \<Rightarrow> nat" where
  "getopt_left g = length (nextchar g) + sum_list (map (\<lambda>a. Suc (length a)) (rest g))"

lemma getopt_take_left:
  "getopt_take os c nc as = (Some x, g') \<Longrightarrow>
     getopt_left g' \<le> length nc + sum_list (map (\<lambda>a. Suc (length a)) as)"
  by (auto simp: getopt_take_def getopt_left_def split: option.splits bool.splits if_splits list.splits)

lemma getopt_left_less:
  assumes "getopt g os = (Some x, g')"
  shows "getopt_left g' < getopt_left g"
proof (cases "nextchar g")
  case (Cons c nc)
  with assms have "getopt_left g' \<le> length nc + sum_list (map (\<lambda>a. Suc (length a)) (rest g))"
    by (auto simp: getopt_def Let_def dest: getopt_take_left)
  with Cons show ?thesis by (simp add: getopt_left_def)
next
  case Nil
  show ?thesis
  proof (cases "rest g")
    case Nil' : Nil
    with Nil assms show ?thesis by (simp add: getopt_def)
  next
    case (Cons a as)
    with Nil assms have a: "a \<noteq> ''--''" "\<not> (length a < 2 \<or> hd a \<noteq> CHR ''-'')"
      and t: "getopt_take (if os \<noteq> [] \<and> hd os = CHR ''+'' then tl os else os) (a ! 1) (drop 2 a) as = (Some x, g')"
      by (auto simp: getopt_def Let_def split: if_splits)
    from t have "getopt_left g' \<le> length (drop 2 a) + sum_list (map (\<lambda>a. Suc (length a)) as)"
      by (rule getopt_take_left)
    with a Nil Cons show ?thesis by (simp add: getopt_left_def)
  qed
qed

text \<open>\<^verbatim>\<open>while ((opt = getopt(argc, argv, "+b:B:d:D:g:qr:s:t:u:Z")) != -1) switch (opt) ...\<close>\<close>

function main_loop ::
  "kernel \<Rightarrow> 32 word \<Rightarrow> 32 word \<Rightarrow> getopt_state \<Rightarrow> vars \<Rightarrow> (vars \<times> getopt_state) prog" where
  "main_loop k uid gid g v =
     (case getopt g optstring of
        (None, g') \<Rightarrow> ret (v, g')
      | (Some (opt, optarg), g') \<Rightarrow>
          bnd (switch_opt k uid gid v opt optarg) (\<lambda>v'. main_loop k uid gid g' v'))"
  by pat_completeness auto
termination
  by (relation "measure (\<lambda>(k, uid, gid, g, v). getopt_left g)")
     (auto dest: getopt_left_less [OF sym])

declare main_loop.simps [simp del]

text \<open>
  What follows the loop: the check of \<^verbatim>\<open>root_set\<close>, the root transition, the
  read-only remount, the optional \<^verbatim>\<open>chdir\<close>, \<^verbatim>\<open>dropcaps\<close> and \<^verbatim>\<open>execv\<close>.
  \<^verbatim>\<open>argv[optind]\<close> is the first of the remaining arguments, or \<^verbatim>\<open>NULL\<close>. A successful
  \<^verbatim>\<open>execv\<close> does not return.
\<close>

definition main_tail :: "kernel \<Rightarrow> vars \<Rightarrow> string list \<Rightarrow> unit prog" where
  "main_tail k v args =
     (if \<not> root_set v then errorf ''-s option is mandatory''
      else
        bnd (ok k ''mkdir'' (Mkdir ''.oldroot'' mode_0755)) (\<lambda>_.
        bnd (ok k ''pivot_root'' (Pivot_root ''.'' ''.oldroot'')) (\<lambda>_.
        bnd (ok k ''chroot'' (Chroot ''.'')) (\<lambda>_.
        bnd (ok k ''umount2'' (Umount2 ''.oldroot'' MNT_DETACH)) (\<lambda>_.
        bnd (ok k ''rmdir'' (Rmdir ''.oldroot'')) (\<lambda>_.
        bnd (ok k ''mount'' (Mount ''/'' ''/'' None
               (MS_REMOUNT OR MS_BIND OR MS_NOEXEC OR MS_NOSUID OR MS_NODEV OR MS_RDONLY)
               None)) (\<lambda>_.
        bnd (case child_dir v of
               Some d \<Rightarrow> bnd (ok k ''chdir'' (Chdir d)) (\<lambda>_. ret ())
             | None \<Rightarrow> ret ()) (\<lambda>_.
        bnd (ok k ''dropcaps'' dropcaps) (\<lambda>_.
        (let binary' = (case binary v of
                          None \<Rightarrow> (case args of [] \<Rightarrow> None | a # _ \<Rightarrow> Some a)
                        | Some b \<Rightarrow> Some b)
         in bnd (call k (Execv binary' args)) (\<lambda>r.
            if r \<ge> 0 then halt Execed
            else bnd (checkreturn r ''execv'') (\<lambda>_. ret ()))))))))))))"

text \<open>
  \<^verbatim>\<open>main\<close>: \<open>uid\<close> and \<open>gid\<close> are what \<^verbatim>\<open>getuid\<close> and \<^verbatim>\<open>getgid\<close> return,
  \<open>argv\<close> is the argument vector with the program name first. \<^verbatim>\<open>prctl\<close>,
  \<^verbatim>\<open>unshare\<close>, \<^verbatim>\<open>setdomainname\<close> and \<^verbatim>\<open>sethostname\<close> come before any option is
  read.
\<close>

definition unshare_flags :: "32 word" where
  "unshare_flags =
     CLONE_NEWNS OR CLONE_NEWUTS OR CLONE_NEWPID OR CLONE_NEWIPC OR CLONE_NEWUSER OR CLONE_NEWNET"

definition main_head :: "kernel \<Rightarrow> unit prog" where
  "main_head k =
     bnd (ok k ''prctl'' (Prctl PR_SET_PDEATHSIG SIGKILL)) (\<lambda>_.
     bnd (ok k ''unshare'' (Unshare unshare_flags)) (\<lambda>_.
     bnd (ok k ''setdomainname'' (Setdomainname my_domain (length my_domain))) (\<lambda>_.
     bnd (ok k ''sethostname'' (Sethostname my_host (length my_host))) (\<lambda>_.
     ret ()))))"

definition main :: "kernel \<Rightarrow> 32 word \<Rightarrow> 32 word \<Rightarrow> string list \<Rightarrow> unit prog" where
  "main k uid gid argv =
     bnd (main_head k) (\<lambda>_.
     bnd (main_loop k uid gid \<lparr>nextchar = [], rest = drop 1 argv\<rparr>
            \<lparr>verbose = True, root_set = False, child_dir = None, binary = None\<rparr>) (\<lambda>(v, g).
     main_tail k v (rest g)))"

text \<open>A run starts with nothing called and nothing printed.\<close>

definition run :: "kernel \<Rightarrow> 32 word \<Rightarrow> 32 word \<Rightarrow> string list \<Rightarrow> (outcome + unit) \<times> proc" where
  "run k uid gid argv = main k uid gid argv \<lparr>trace = [], err = []\<rparr>"

section \<open>Vocabulary of the properties\<close>

subsection \<open>Which calls a run may make, and which failures end it\<close>

text \<open>
  \<open>tolerated\<close> marks the calls that \<^verbatim>\<open>main\<close> and \<^verbatim>\<open>recursive_mkdir\<close> make outside
  \<^verbatim>\<open>ok\<close> and whose failure they do not turn into \<^verbatim>\<open>exit(-1)\<close>: \<^verbatim>\<open>lstat\<close>
  (lines 77, 162 and 189, where the result only chooses a branch), the \<^verbatim>\<open>open\<close> of
  \<^verbatim>\<open>/proc/self/setgroups\<close> (line 232, where the guard is written when \<^verbatim>\<open>fd > 0\<close>)
  and the first \<^verbatim>\<open>mount\<close> of \<^verbatim>\<open>case 's'\<close> (line 121, whose result is dropped).
\<close>

fun tolerated :: "syscall \<Rightarrow> bool" where
  "tolerated (Lstat p) = True"
| "tolerated (Open p fl mo) = (p = ''/proc/self/setgroups'' \<and> fl = O_WRONLY \<and> mo = None)"
| "tolerated (Mount src tgt fs fl d) =
     (src = ''none'' \<and> tgt = ''/'' \<and> fs = None \<and> fl = MS_REC OR MS_PRIVATE \<and> d = None)"
| "tolerated _ = False"

fun is_exec :: "syscall \<Rightarrow> bool" where
  "is_exec (Execv b a) = True"
| "is_exec _ = False"

fun halted :: "(outcome + 'a) \<Rightarrow> outcome option" where
  "halted (Inl e) = Some e"
| "halted (Inr a) = None"

text \<open>
  A stretch \<open>new\<close> of the trace, made by a part of the program that ended with
  \<open>h\<close> (\<open>None\<close>: it returned): \<open>fatal_seg\<close> says that a call of \<open>new\<close> that failed
  and is not \<open>tolerated\<close> is the last call and the process exited with status 255.
  \<open>seg_ok Q\<close> adds that every call has one of the shapes \<open>Q\<close>, that the image was
  replaced only by a last, successful \<^verbatim>\<open>execv\<close>, and that \<^verbatim>\<open>exit\<close> is always
  \<^verbatim>\<open>exit(-1)\<close>. \<open>sound Q m\<close>: from any state, \<open>m\<close> only appends to the trace, and what
  it appends is such a stretch.
\<close>

definition fatal_seg :: "outcome option \<Rightarrow> (syscall \<times> int) list \<Rightarrow> bool" where
  "fatal_seg h new =
     (\<forall>i<length new. snd (new ! i) < 0 \<and> \<not> tolerated (fst (new ! i)) \<longrightarrow>
        Suc i = length new \<and> h = Some (Exited 255))"

definition seg_ok :: "(syscall \<Rightarrow> bool) \<Rightarrow> outcome option \<Rightarrow> (syscall \<times> int) list \<Rightarrow> bool" where
  "seg_ok Q h new =
     ((\<forall>e\<in>set new. Q (fst e)) \<and> fatal_seg h new \<and>
      (h = Some Execed \<longrightarrow> new \<noteq> [] \<and> is_exec (fst (last new)) \<and> 0 \<le> snd (last new)) \<and>
      h \<in> {None, Some Execed, Some Overrun, Some (Exited 255)})"

definition sound :: "(syscall \<Rightarrow> bool) \<Rightarrow> 'a prog \<Rightarrow> bool" where
  "sound Q m =
     (\<forall>s. \<exists>new. trace (snd (m s)) = trace s @ new \<and> seg_ok Q (halted (fst (m s))) new)"

text \<open>
  The shapes of the calls: \<open>pre_call\<close> for what runs before the option loop and in it
  (lines 99 to 269), \<open>tail_call\<close> for what runs after it (lines 276 to 299).
\<close>

fun pre_call :: "syscall \<Rightarrow> bool" where
  "pre_call (Prctl a b) = (a = PR_SET_PDEATHSIG \<and> b = SIGKILL)"
| "pre_call (Unshare f) = (f = unshare_flags)"
| "pre_call (Setdomainname n l) = (n = my_domain \<and> l = length my_domain)"
| "pre_call (Sethostname n l) = (n = my_host \<and> l = length my_host)"
| "pre_call (Mount src tgt fs fl d) =
     ((src = ''none'' \<and> tgt = ''/'' \<and> fs = None \<and> fl = MS_REC OR MS_PRIVATE \<and> d = None) \<or>
      (src = tgt \<and> fs = None \<and> fl = MS_BIND OR MS_NOSUID \<and> d = None) \<or>
      (take 1 tgt \<noteq> ''/'' \<and> fs = None \<and> (fl = MS_REC OR MS_BIND \<or> fl = MS_BIND) \<and> d = None) \<or>
      (src = ''sandbox-tmp'' \<and> fs = Some ''tmpfs'' \<and>
       fl = MS_NOSUID OR MS_NOEXEC OR MS_NOATIME \<and>
       d = Some ''size=16m,nr_inodes=16k,mode=755''))"
| "pre_call (Chdir p) = True"
| "pre_call (Stat p) = True"
| "pre_call (Lstat p) = True"
| "pre_call (Mkdir p m) = (m = mode_0755)"
| "pre_call (Open p fl mo) =
     ((fl = O_WRONLY OR O_CREAT \<and> mo = Some mode_0666 \<and> take 1 p \<noteq> ''/'') \<or>
      (fl = O_WRONLY \<and> mo = None \<and>
       p \<in> {''/proc/self/setgroups'', ''/proc/self/uid_map'', ''/proc/self/gid_map''}))"
| "pre_call (Close fd) = True"
| "pre_call (Write fd buf n) = (n = length buf)"
| "pre_call (Setresuid a b c) = (a = b \<and> b = c)"
| "pre_call (Setresgid a b c) = (a = b \<and> b = c)"
| "pre_call _ = False"

fun tail_call :: "syscall \<Rightarrow> bool" where
  "tail_call (Mkdir p m) = (p = ''.oldroot'' \<and> m = mode_0755)"
| "tail_call (Pivot_root new_root put_old) = (new_root = ''.'' \<and> put_old = ''.oldroot'')"
| "tail_call (Chroot p) = (p = ''.'')"
| "tail_call (Umount2 p fl) = (p = ''.oldroot'' \<and> fl = MNT_DETACH)"
| "tail_call (Rmdir p) = (p = ''.oldroot'')"
| "tail_call (Mount src tgt fs fl d) =
     (src = ''/'' \<and> tgt = ''/'' \<and> fs = None \<and> d = None \<and>
      fl = MS_REMOUNT OR MS_BIND OR MS_NOEXEC OR MS_NOSUID OR MS_NODEV OR MS_RDONLY)"
| "tail_call (Chdir p) = True"
| "tail_call (Capset ver pid dat) = (Capset ver pid dat = dropcaps)"
| "tail_call (Execv b a) = True"
| "tail_call _ = False"

definition any_call :: "syscall \<Rightarrow> bool" where
  "any_call c = (pre_call c \<or> tail_call c)"

text \<open>\<^verbatim>\<open>main\<close> up to the end of the option loop.\<close>

definition main_pre :: "kernel \<Rightarrow> 32 word \<Rightarrow> 32 word \<Rightarrow> string list \<Rightarrow> (vars \<times> getopt_state) prog" where
  "main_pre k uid gid argv =
     bnd (main_head k) (\<lambda>_.
     main_loop k uid gid \<lparr>nextchar = [], rest = drop 1 argv\<rparr>
       \<lparr>verbose = True, root_set = False, child_dir = None, binary = None\<rparr>)"


subsection \<open>Arguments and calls the claims speak of\<close>



text \<open>
  A \<^verbatim>\<open>-b\<close> argument without \<^verbatim>\<open>=\<close>, or whose destination (what follows the first
  \<^verbatim>\<open>=\<close>) starts with \<^verbatim>\<open>/\<close>.
\<close>

definition bad_bind_arg :: "string \<Rightarrow> bool" where
  "bad_bind_arg a \<longleftrightarrow>
     CHR ''='' \<notin> set a \<or> (\<exists>src d. a = src @ ''=/'' @ d \<and> CHR ''='' \<notin> set src)"

text \<open>
  The calls that change the mount table. The calls that only the root transition and
  the handoff make (lines 277 to 299), a remount among them; \<^verbatim>\<open>mkdir\<close> is not one of
  them, \<^verbatim>\<open>-D .oldroot\<close> makes the same call as line 276.
\<close>

fun mount_op :: "syscall \<Rightarrow> bool" where
  "mount_op (Mount src tgt fs fl d) = True"
| "mount_op (Umount2 p fl) = True"
| "mount_op (Pivot_root new_root put_old) = True"
| "mount_op _ = False"


subsection \<open>Kernels for concrete runs\<close>

text \<open>
  \<open>kernel_fresh\<close>: every call succeeds and the sandbox root holds nothing yet, so
  \<^verbatim>\<open>lstat\<close> fails; \<^verbatim>\<open>stat\<close> reports \<^verbatim>\<open>/etc/resolv.conf\<close> as a regular file
  (mode 0100644) and any other path as a directory (mode 040755); \<^verbatim>\<open>open\<close> returns
  descriptor 3 and \<^verbatim>\<open>write\<close> the full count. \<open>kernel_rerun\<close>: the same with a
  sandbox root used before, where \<^verbatim>\<open>lstat\<close> finds a directory. \<open>kernel_shared\<close>:
  the root mount cannot be made private. \<open>kernel_old\<close>: a kernel without
  \<^verbatim>\<open>/proc/self/setgroups\<close>. \<open>kernel_denied\<close>: every \<^verbatim>\<open>write\<close> is refused.
\<close>

definition kernel_fresh :: kernel where
  "kernel_fresh tr c =
     (case c of
        Stat p \<Rightarrow> (0, if p = ''/etc/resolv.conf'' then 0x81A4 else 0x41ED)
      | Lstat p \<Rightarrow> (- 1, 0)
      | Open p fl mo \<Rightarrow> (3, 0)
      | Write fd buf n \<Rightarrow> (int n, 0)
      | _ \<Rightarrow> (0, 0))"

definition kernel_rerun :: kernel where
  "kernel_rerun tr c = (case c of Lstat p \<Rightarrow> (0, 0x41ED) | _ \<Rightarrow> kernel_fresh tr c)"

definition kernel_shared :: kernel where
  "kernel_shared tr c =
     (if c = Mount ''none'' ''/'' None (MS_REC OR MS_PRIVATE) None then (- 1, 0)
      else kernel_fresh tr c)"



section \<open>Running the program step by step\<close>

text \<open>What one call does to the state, alone and in front of a continuation.\<close>

lemma sys_run:
  "sys k c s = (Inr (k (trace s) c), s\<lparr>trace := trace s @ [(c, fst (k (trace s) c))]\<rparr>)"
  by (simp add: sys_def split: prod.splits)

lemma call_run:
  "call k c s = (Inr (fst (k (trace s) c)), s\<lparr>trace := trace s @ [(c, fst (k (trace s) c))]\<rparr>)"
  by (simp add: call_def bnd_def sys_run ret_def split: prod.splits)

lemma ok_stat_run:
  "ok_stat k name c s =
     (if 0 \<le> fst (k (trace s) c)
      then (Inr (k (trace s) c), s\<lparr>trace := trace s @ [(c, fst (k (trace s) c))]\<rparr>)
      else (Inl (Exited 255),
            s\<lparr>trace := trace s @ [(c, fst (k (trace s) c))],
              err := err s @ [Failed name (fst (k (trace s) c))]\<rparr>))"
  by (simp add: ok_stat_def bnd_def sys_run checkreturn_def ret_def eprint_def exit_prog_def
        halt_def exit_status_def split: prod.splits)

lemma ok_run:
  "ok k name c s =
     (if 0 \<le> fst (k (trace s) c)
      then (Inr (fst (k (trace s) c)), s\<lparr>trace := trace s @ [(c, fst (k (trace s) c))]\<rparr>)
      else (Inl (Exited 255),
            s\<lparr>trace := trace s @ [(c, fst (k (trace s) c))],
              err := err s @ [Failed name (fst (k (trace s) c))]\<rparr>))"
  by (simp add: ok_def bnd_def ok_stat_run ret_def split: prod.splits)

lemma info_run:
  "info v msg s = (Inr (), if verbose v then s\<lparr>err := err s @ [Info msg]\<rparr> else s)"
  by (simp add: info_def eprint_def ret_def)

lemma errorf_run: "errorf msg s = (Inl (Exited 255), s\<lparr>err := err s @ [Errorf msg]\<rparr>)"
  by (simp add: errorf_def bnd_def eprint_def exit_prog_def halt_def exit_status_def)

lemma bnd_sys:
  "bnd (sys k c) f s = f (k (trace s) c) (s\<lparr>trace := trace s @ [(c, fst (k (trace s) c))]\<rparr>)"
  by (simp add: bnd_def sys_run)

lemma bnd_call:
  "bnd (call k c) f s =
     f (fst (k (trace s) c)) (s\<lparr>trace := trace s @ [(c, fst (k (trace s) c))]\<rparr>)"
  by (simp add: bnd_def call_run)

lemma bnd_ok_stat:
  "bnd (ok_stat k name c) f s =
     (if 0 \<le> fst (k (trace s) c)
      then f (k (trace s) c) (s\<lparr>trace := trace s @ [(c, fst (k (trace s) c))]\<rparr>)
      else (Inl (Exited 255),
            s\<lparr>trace := trace s @ [(c, fst (k (trace s) c))],
              err := err s @ [Failed name (fst (k (trace s) c))]\<rparr>))"
  by (simp add: bnd_def ok_stat_run)

lemma bnd_ok:
  "bnd (ok k name c) f s =
     (if 0 \<le> fst (k (trace s) c)
      then f (fst (k (trace s) c)) (s\<lparr>trace := trace s @ [(c, fst (k (trace s) c))]\<rparr>)
      else (Inl (Exited 255),
            s\<lparr>trace := trace s @ [(c, fst (k (trace s) c))],
              err := err s @ [Failed name (fst (k (trace s) c))]\<rparr>))"
  by (simp add: bnd_def ok_run)

lemma bnd_info:
  "bnd (info v msg) f s = f () (if verbose v then s\<lparr>err := err s @ [Info msg]\<rparr> else s)"
  by (simp add: bnd_def info_run)

lemma bnd_ret: "bnd (ret a) f s = f a s"
  by (simp add: bnd_def ret_def)

lemma bnd_ret_fun: "bnd (ret a) f = f a"
  by (rule ext) (simp add: bnd_ret)

lemma bnd_assoc: "bnd (bnd m f) g = bnd m (\<lambda>a. bnd (f a) g)"
  by (rule ext) (simp add: bnd_def split: prod.splits sum.splits)

lemma bnd_Inr_iff:
  "bnd m f s = (Inr b, s'') \<longleftrightarrow> (\<exists>a s'. m s = (Inr a, s') \<and> f a s' = (Inr b, s''))"
  by (auto simp: bnd_def split: prod.splits sum.splits)

lemma ok_Inr_iff:
  "ok k name c s = (Inr r, s') \<longleftrightarrow>
     (r = fst (k (trace s) c) \<and> 0 \<le> r \<and> s' = s\<lparr>trace := trace s @ [(c, r)]\<rparr>)"
  by (auto simp: ok_run)

lemma execv_run:
  "bnd (call k (Execv b a))
     (\<lambda>r. if r \<ge> 0 then halt Execed else bnd (checkreturn r name) (\<lambda>_. ret ())) s =
   (if 0 \<le> fst (k (trace s) (Execv b a))
    then (Inl Execed, s\<lparr>trace := trace s @ [(Execv b a, fst (k (trace s) (Execv b a)))]\<rparr>)
    else (Inl (Exited 255),
          s\<lparr>trace := trace s @ [(Execv b a, fst (k (trace s) (Execv b a)))],
            err := err s @ [Failed name (fst (k (trace s) (Execv b a)))]\<rparr>))"
  by (simp add: bnd_def call_run halt_def checkreturn_def eprint_def exit_prog_def
        exit_status_def)

lemma bnd_ok_ExecedE:
  assumes "bnd (ok k name c) f s = (Inl Execed, s')"
  obtains r where "0 \<le> r" "f r (s\<lparr>trace := trace s @ [(c, r)]\<rparr>) = (Inl Execed, s')"
  using assms by (auto simp: bnd_ok split: if_splits)

lemma execv_ExecedE:
  assumes "bnd (call k (Execv b a))
     (\<lambda>r. if r \<ge> 0 then halt Execed else bnd (checkreturn r name) (\<lambda>_. ret ())) s =
     (Inl Execed, s')"
  obtains r where "0 \<le> r" "s' = s\<lparr>trace := trace s @ [(Execv b a, r)]\<rparr>"
  using assms by (auto simp: execv_run split: if_splits)

text \<open>The definitions a concrete run unfolds.\<close>

lemmas prog_defs =
  run_def main_def main_head_def main_tail_def switch_opt_def
  opt_s_def opt_b_def bind_onto_def opt_t_def opt_u_def opt_g_def
  ok_def ok_stat_def call_def sys_def bnd_def ret_def halt_def eprint_def errorf_def
  checkreturn_def exit_prog_def exit_status_def info_def
  recursive_mkdir_def recursive_mkdir_loop.simps main_loop.simps
  getopt_def optstring_def getopt_take_def opt_kind_def strchr_def
  sscanf_d_def isspace_def isdigit_def digits_value_def strtol_clamp_def to_int32_def
  id_line_def show_int_def digit_char_def dropcaps_def Let_def
  S_ISDIR_def S_IFMT_def S_IFDIR_def my_domain_def my_host_def

subsection \<open>\<^verbatim>\<open>strchr\<close> and the check of a \<^verbatim>\<open>-b\<close> argument\<close>

lemma strchrnul_le: "strchrnul s c \<le> length s"
  by (induction s) auto

lemma strchrnul_notin: "c \<notin> set (take (strchrnul s c) s)"
  by (induction s) auto

lemma strchrnul_nth: "strchrnul s c < length s \<Longrightarrow> s ! strchrnul s c = c"
  by (induction s) auto

lemma strchrnul_length_iff: "strchrnul s c = length s \<longleftrightarrow> c \<notin> set s"
  by (induction s) auto

lemma strchrnul_append: "c \<notin> set a \<Longrightarrow> strchrnul (a @ c # b) c = length a"
  by (induction a) auto

lemma strchr_None_iff: "strchr s c = None \<longleftrightarrow> c \<notin> set s"
  using strchrnul_le [of s c] by (auto simp: strchr_def Let_def strchrnul_length_iff [symmetric])

lemma strchr_append: "c \<notin> set a \<Longrightarrow> strchr (a @ c # b) c = Some (length a)"
  by (simp add: strchr_def strchrnul_append)

lemma strchr_Some_less: "strchr s c = Some i \<Longrightarrow> i < length s"
  by (simp add: strchr_def Let_def split: if_splits)

lemma strchr_SomeD:
  assumes "strchr s c = Some i"
  shows "s = take i s @ c # drop (Suc i) s \<and> c \<notin> set (take i s)"
proof -
  from assms have i: "i = strchrnul s c" "i < length s"
    by (auto simp: strchr_def Let_def split: if_splits)
  then have "s ! i = c" by (simp add: strchrnul_nth)
  moreover from i(2) have "s = take i s @ s ! i # drop (Suc i) s" by (rule id_take_nth_drop)
  moreover from i(1) have "c \<notin> set (take i s)" by (simp add: strchrnul_notin)
  ultimately show ?thesis by simp
qed

lemma drop_eq_ConsD: "drop n xs = y # ys \<Longrightarrow> n < length xs \<and> xs ! n = y"
proof
  assume d: "drop n xs = y # ys"
  show "n < length xs"
  proof (rule ccontr)
    assume "\<not> n < length xs"
    then have "drop n xs = []" by simp
    with d show False by simp
  qed
  from d show "xs ! n = y" by (rule nth_via_drop)
qed

lemma bad_bind_arg_iff:
  "bad_bind_arg a \<longleftrightarrow>
     (case strchr a CHR ''='' of None \<Rightarrow> True
      | Some i \<Rightarrow> Suc i < length a \<and> a ! Suc i = CHR ''/'')"
proof (cases "strchr a CHR ''=''")
  case None
  then have "CHR ''='' \<notin> set a" by (simp add: strchr_None_iff)
  with None show ?thesis by (simp add: bad_bind_arg_def)
next
  case (Some i)
  from strchr_SomeD [OF Some]
  have a: "a = take i a @ CHR ''='' # drop (Suc i) a" and n: "CHR ''='' \<notin> set (take i a)"
    by simp_all
  from Some have il: "i < length a" by (rule strchr_Some_less)
  have "(\<exists>src d. a = src @ ''=/'' @ d \<and> CHR ''='' \<notin> set src) \<longleftrightarrow>
        (Suc i < length a \<and> a ! Suc i = CHR ''/'')" (is "?L \<longleftrightarrow> ?R")
  proof
    assume ?L
    then obtain src d where sd: "a = src @ ''=/'' @ d" "CHR ''='' \<notin> set src" by blast
    then have "strchr a CHR ''='' = Some (length src)" by (simp add: strchr_append)
    with Some have "i = length src" by simp
    with sd show ?R by (simp add: nth_append)
  next
    assume r: ?R
    then have "drop (Suc i) a = CHR ''/'' # drop (Suc (Suc i)) a"
      by (metis Cons_nth_drop_Suc)
    with a have "a = take i a @ ''=/'' @ drop (Suc (Suc i)) a" by simp
    with n show ?L by blast
  qed
  moreover from Some have "CHR ''='' \<in> set a" 
    using strchr_None_iff [of a "CHR ''=''"] by auto
  ultimately show ?thesis using Some by (simp add: bad_bind_arg_def)
qed

section \<open>Every part of the program is sound\<close>

subsection \<open>Stretches of the trace\<close>

lemma soundI:
  assumes "\<And>s r s'. m s = (r, s') \<Longrightarrow> \<exists>new. trace s' = trace s @ new \<and> seg_ok Q (halted r) new"
  shows "sound Q m"
  unfolding sound_def
proof
  fix s
  obtain r s' where "m s = (r, s')" by (cases "m s")
  with assms [OF this]
  show "\<exists>new. trace (snd (m s)) = trace s @ new \<and> seg_ok Q (halted (fst (m s))) new"
    by simp
qed

lemma soundD:
  assumes "sound Q m" "m s = (r, s')"
  obtains new where "trace s' = trace s @ new" "seg_ok Q (halted r) new"
proof -
  from assms(1)
  have "\<exists>new. trace (snd (m s)) = trace s @ new \<and> seg_ok Q (halted (fst (m s))) new"
    unfolding sound_def by blast
  with assms(2) that show ?thesis by auto
qed

lemma sound_trace: "sound Q m \<Longrightarrow> \<exists>new. trace (snd (m s)) = trace s @ new"
  unfolding sound_def by blast


lemma seg_ok_Nil: "h \<in> {None, Some Overrun, Some (Exited 255)} \<Longrightarrow> seg_ok Q h []"
  by (auto simp: seg_ok_def fatal_seg_def)

lemma seg_ok_append:
  assumes "seg_ok Q None new1" "seg_ok Q h new2"
  shows "seg_ok Q h (new1 @ new2)"
proof -
  from assms(1)
  have clean: "\<And>i. i < length new1 \<Longrightarrow> \<not> (snd (new1 ! i) < 0 \<and> \<not> tolerated (fst (new1 ! i)))"
    by (auto simp: seg_ok_def fatal_seg_def)
  have "fatal_seg h (new1 @ new2)"
    unfolding fatal_seg_def
  proof (intro allI impI)
    fix i assume i: "i < length (new1 @ new2)"
      and bad: "snd ((new1 @ new2) ! i) < 0 \<and> \<not> tolerated (fst ((new1 @ new2) ! i))"
    show "Suc i = length (new1 @ new2) \<and> h = Some (Exited 255)"
    proof (cases "i < length new1")
      case True
      with bad clean [of i] show ?thesis by (simp add: nth_append)
    next
      case False
      with i bad have "i - length new1 < length new2"
        "snd (new2 ! (i - length new1)) < 0 \<and> \<not> tolerated (fst (new2 ! (i - length new1)))"
        by (auto simp: nth_append)
      with assms(2) have "Suc (i - length new1) = length new2 \<and> h = Some (Exited 255)"
        unfolding seg_ok_def fatal_seg_def by blast
      with False show ?thesis by auto
    qed
  qed
  moreover from assms(2) have "h = Some Execed \<Longrightarrow> new2 \<noteq> []"
    by (simp add: seg_ok_def)
  ultimately show ?thesis
    using assms unfolding seg_ok_def by (simp add: ball_Un)
qed

lemma seg_ok_single:
  assumes "Q c" "x < 0 \<and> \<not> tolerated c \<Longrightarrow> h = Some (Exited 255)"
    "h \<in> {None, Some Overrun, Some (Exited 255)}"
  shows "seg_ok Q h [(c, x)]"
  using assms by (auto simp: seg_ok_def fatal_seg_def)

subsection \<open>Rules, one for each construct of the program\<close>

lemma sound_skip:
  assumes "\<And>s. trace (snd (m s)) = trace s"
    "\<And>s. halted (fst (m s)) \<in> {None, Some Overrun, Some (Exited 255)}"
  shows "sound Q m"
  unfolding sound_def
proof
  fix s
  have "seg_ok Q (halted (fst (m s))) []"
    using assms(2) by (rule seg_ok_Nil)
  with assms(1)
  show "\<exists>new. trace (snd (m s)) = trace s @ new \<and> seg_ok Q (halted (fst (m s))) new"
    by simp
qed

lemma sound_single:
  assumes "Q c"
    "\<And>s. \<exists>x. trace (snd (m s)) = trace s @ [(c, x)] \<and>
       (x < 0 \<and> \<not> tolerated c \<longrightarrow> halted (fst (m s)) = Some (Exited 255)) \<and>
       halted (fst (m s)) \<in> {None, Some Overrun, Some (Exited 255)}"
  shows "sound Q m"
  unfolding sound_def
proof
  fix s
  from assms(2) [of s] obtain x where x: "trace (snd (m s)) = trace s @ [(c, x)]"
    "x < 0 \<and> \<not> tolerated c \<Longrightarrow> halted (fst (m s)) = Some (Exited 255)"
    "halted (fst (m s)) \<in> {None, Some Overrun, Some (Exited 255)}"
    by blast
  from assms(1) x(2,3) have "seg_ok Q (halted (fst (m s))) [(c, x)]"
    by (rule seg_ok_single)
  with x(1) show "\<exists>new. trace (snd (m s)) = trace s @ new \<and> seg_ok Q (halted (fst (m s))) new"
    by blast
qed

lemma sound_ret: "sound Q (ret a)"
  by (rule sound_skip) (simp_all add: ret_def)

lemma sound_exit: "sound Q (exit_prog (- 1))"
  by (rule sound_skip) (simp_all add: exit_prog_def halt_def exit_status_def)

lemma sound_overrun: "sound Q (halt Overrun)"
  by (rule sound_skip) (simp_all add: halt_def)

lemma sound_eprint: "sound Q (eprint d)"
  by (rule sound_skip) (simp_all add: eprint_def)

lemma sound_bnd:
  assumes "sound Q m" "\<And>a. sound Q (f a)"
  shows "sound Q (bnd m f)"
proof (rule soundI)
  fix s r s' assume run: "bnd m f s = (r, s')"
  obtain r1 s1 where m: "m s = (r1, s1)" by (cases "m s")
  from assms(1) m obtain new1 where n1: "trace s1 = trace s @ new1" "seg_ok Q (halted r1) new1"
    by (rule soundD)
  show "\<exists>new. trace s' = trace s @ new \<and> seg_ok Q (halted r) new"
  proof (cases r1)
    case (Inl e)
    with run m have rs: "r = Inl e" "s' = s1" by (simp_all add: bnd_def)
    with n1 Inl have "trace s' = trace s @ new1 \<and> seg_ok Q (halted r) new1" by simp
    then show ?thesis ..
  next
    case (Inr a)
    with run m have "f a s1 = (r, s')" by (simp add: bnd_def)
    with assms(2) [of a] obtain new2
      where n2: "trace s' = trace s1 @ new2" "seg_ok Q (halted r) new2"
      by (rule soundD)
    from n1(2) Inr have "seg_ok Q None new1" by simp
    from this n2(2) have "seg_ok Q (halted r) (new1 @ new2)" by (rule seg_ok_append)
    moreover from n1(1) n2(1) have "trace s' = trace s @ (new1 @ new2)" by simp
    ultimately have "trace s' = trace s @ (new1 @ new2) \<and> seg_ok Q (halted r) (new1 @ new2)"
      by simp
    then show ?thesis ..
  qed
qed

lemma sound_errorf: "sound Q (errorf msg)"
  unfolding errorf_def by (intro sound_bnd sound_eprint sound_exit)

lemma sound_info: "sound Q (info v msg)"
  unfolding info_def by (simp add: sound_eprint sound_ret)

lemma sound_sys: "Q c \<Longrightarrow> tolerated c \<Longrightarrow> sound Q (sys k c)"
  by (rule sound_single [where c = c]) (auto simp: sys_run)

lemma sound_call: "Q c \<Longrightarrow> tolerated c \<Longrightarrow> sound Q (call k c)"
  by (rule sound_single [where c = c]) (auto simp: call_run)

lemma sound_ok_stat: "Q c \<Longrightarrow> sound Q (ok_stat k name c)"
  by (rule sound_single [where c = c]) (auto simp: ok_stat_run)

lemma sound_ok: "Q c \<Longrightarrow> sound Q (ok k name c)"
  by (rule sound_single [where c = c]) (auto simp: ok_run)

lemma sound_if:
  "(c \<Longrightarrow> sound Q a) \<Longrightarrow> (\<not> c \<Longrightarrow> sound Q b) \<Longrightarrow> sound Q (if c then a else b)"
  by simp

lemma sound_case_prod:
  "(\<And>x y. sound Q (f x y)) \<Longrightarrow> sound Q (case p of (x, y) \<Rightarrow> f x y)"
  by (cases p) simp

lemma sound_case_option:
  "sound Q a \<Longrightarrow> (\<And>x. sound Q (f x)) \<Longrightarrow> sound Q (case o' of None \<Rightarrow> a | Some x \<Rightarrow> f x)"
  by (cases o') simp_all

lemma sound_mono:
  assumes "sound Q m" "\<And>c. Q c \<Longrightarrow> Q' c"
  shows "sound Q' m"
proof (rule soundI)
  fix s r s' assume "m s = (r, s')"
  with assms(1) obtain new where n: "trace s' = trace s @ new" "seg_ok Q (halted r) new"
    by (rule soundD)
  from n(2) assms(2) have "seg_ok Q' (halted r) new" unfolding seg_ok_def by blast
  with n(1) show "\<exists>new. trace s' = trace s @ new \<and> seg_ok Q' (halted r) new" by blast
qed

text \<open>
  The two places where a call outside \<^verbatim>\<open>ok\<close> is followed by its own test: the
  \<^verbatim>\<open>mkdir\<close> of \<^verbatim>\<open>recursive_mkdir\<close> and the final \<^verbatim>\<open>execv\<close>.
\<close>

lemma sound_call_check:
  assumes "Q c" "\<And>r. sound Q (g r)"
  shows "sound Q (bnd (call k c)
           (\<lambda>r. if r < 0 then bnd (eprint d) (\<lambda>_. exit_prog (- 1)) else g r))"
proof (rule soundI)
  fix s :: proc and r s'
  define x where "x = fst (k (trace s) c)"
  define s1 where "s1 = s\<lparr>trace := trace s @ [(c, x)]\<rparr>"
  assume "bnd (call k c) (\<lambda>r. if r < 0 then bnd (eprint d) (\<lambda>_. exit_prog (- 1)) else g r) s
            = (r, s')"
  then have run: "(if x < 0 then bnd (eprint d) (\<lambda>_. exit_prog (- 1)) else g x) s1 = (r, s')"
    by (auto simp: bnd_def call_run x_def s1_def split: if_splits)
  show "\<exists>new. trace s' = trace s @ new \<and> seg_ok Q (halted r) new"
  proof (cases "x < 0")
    case True
    with run have "r = Inl (Exited 255)" "trace s' = trace s @ [(c, x)]"
      by (auto simp: bnd_def eprint_def exit_prog_def halt_def exit_status_def s1_def)
    moreover from this assms(1) have "seg_ok Q (halted r) [(c, x)]"
      by (intro seg_ok_single) simp_all
    ultimately show ?thesis by blast
  next
    case False
    with run have "g x s1 = (r, s')" by simp
    with assms(2) [of x] obtain new2
      where n2: "trace s' = trace s1 @ new2" "seg_ok Q (halted r) new2"
      by (rule soundD)
    from assms(1) False have "seg_ok Q None [(c, x)]"
      by (intro seg_ok_single) simp_all
    from this n2(2) have "seg_ok Q (halted r) ([(c, x)] @ new2)" by (rule seg_ok_append)
    moreover from n2(1) have "trace s' = trace s @ ([(c, x)] @ new2)" by (simp add: s1_def)
    ultimately show ?thesis by blast
  qed
qed

lemma sound_execv:
  assumes "Q (Execv b a)"
  shows "sound Q (bnd (call k (Execv b a))
           (\<lambda>r. if r \<ge> 0 then halt Execed else bnd (checkreturn r name) (\<lambda>_. ret ())))"
    (is "sound Q ?m")
  unfolding sound_def
proof
  fix s :: proc
  define x where "x = fst (k (trace s) (Execv b a))"
  have run: "?m s =
      (if 0 \<le> x then (Inl Execed, s\<lparr>trace := trace s @ [(Execv b a, x)]\<rparr>)
       else (Inl (Exited 255),
             s\<lparr>trace := trace s @ [(Execv b a, x)], err := err s @ [Failed name x]\<rparr>))"
    by (simp add: bnd_def call_run halt_def checkreturn_def eprint_def exit_prog_def
          exit_status_def x_def)
  have "seg_ok Q (halted (fst (?m s))) [(Execv b a, x)]"
    using assms by (simp add: run seg_ok_def fatal_seg_def)
  moreover have "trace (snd (?m s)) = trace s @ [(Execv b a, x)]"
    by (simp add: run)
  ultimately show "\<exists>new. trace (snd (?m s)) = trace s @ new \<and> seg_ok Q (halted (fst (?m s))) new"
    by blast
qed

subsection \<open>The program\<close>

lemma sound_recursive_mkdir_loop:
  assumes "\<And>p. Q (Lstat p)" "\<And>p. Q (Mkdir p mode)"
  shows "sound Q (recursive_mkdir_loop k dir mode end)"
  using assms
proof (induction k dir mode "end" rule: recursive_mkdir_loop.induct)
  case (1 k dir mode "end")
  define e where "e = end + 1 + strchrnul (drop (end + 1) dir) CHR ''/''"
  have rec: "sound Q (recursive_mkdir_loop k dir mode e)" if "end < length dir" "\<not> 1024 \<le> e"
    by (rule "1.IH"(1) [where xb = 0 and xc = S_IFDIR, OF that(1) e_def refl that(2)])
       (simp_all add: "1.prems" S_IFDIR_def)
  show ?case
    apply (subst recursive_mkdir_loop.simps)
    apply (simp only: Let_def e_def [symmetric])
    apply (intro sound_call_check sound_if sound_overrun sound_ret sound_bnd sound_case_prod
             sound_sys "1.prems" rec)
    apply simp_all
    done
qed

lemma sound_recursive_mkdir: "sound pre_call (recursive_mkdir k dir mode_0755)"
  unfolding recursive_mkdir_def by (rule sound_recursive_mkdir_loop) simp_all

lemma sound_opt_s: "sound pre_call (opt_s k v optarg)"
  unfolding opt_s_def
  by (intro sound_bnd sound_call sound_ok sound_info sound_ret) simp_all

lemma sound_opt_t: "sound pre_call (opt_t k v optarg)"
  unfolding opt_t_def
  by (intro sound_bnd sound_call sound_ok sound_info sound_ret sound_if sound_recursive_mkdir)
     simp_all

lemma sound_opt_u: "sound pre_call (opt_u k uid v optarg)"
  unfolding opt_u_def Let_def
  by (intro sound_case_option sound_errorf sound_bnd sound_ok sound_ret) simp_all

lemma sound_opt_g: "sound pre_call (opt_g k gid v optarg)"
  unfolding opt_g_def Let_def
  by (intro sound_case_option sound_errorf sound_bnd sound_call sound_ok sound_ret sound_if)
     simp_all


lemma sound_bind_onto:
  assumes "take 1 dst \<noteq> ''/''"
  shows "sound pre_call (bind_onto k src dst st_mode)"
  unfolding bind_onto_def
  apply (intro sound_bnd sound_if sound_call sound_ok sound_ret sound_recursive_mkdir)
  apply (insert assms)
  apply simp_all
  done

lemma sound_opt_b: "sound pre_call (opt_b k v optarg)"
proof (cases "strchr optarg CHR ''=''")
  case None
  then show ?thesis by (simp add: opt_b_def sound_errorf)
next
  case (Some i)
  show ?thesis
  proof (cases "Suc i < length optarg \<and> optarg ! Suc i = CHR ''/''")
    case True
    with Some show ?thesis by (simp add: opt_b_def sound_errorf)
  next
    case False
    then have rel: "take 1 (drop (Suc i) optarg) \<noteq> ''/''"
      by (cases "drop (Suc i) optarg") (auto dest!: drop_eq_ConsD)
    from Some False show ?thesis
      unfolding opt_b_def Let_def
      apply (simp only: option.case if_False)
      apply (intro sound_bnd sound_info sound_ok_stat sound_case_prod sound_ret
               sound_bind_onto rel)
      apply simp
      done
  qed
qed

lemma sound_switch_opt: "sound pre_call (switch_opt k uid gid v opt optarg)"
  unfolding switch_opt_def
  by (intro sound_if sound_ret sound_opt_s sound_opt_b sound_opt_t sound_opt_u sound_opt_g
        sound_bnd sound_recursive_mkdir sound_errorf)

lemma sound_main_loop: "sound pre_call (main_loop k uid gid g v)"
proof (induction k uid gid g v rule: main_loop.induct)
  case (1 k uid gid g v)
  show ?case
    apply (subst main_loop.simps)
    apply (cases "getopt g optstring")
    subgoal for r g'
      apply (cases r)
       apply (simp add: sound_ret)
      subgoal for x
        apply (cases x)
        apply simp
        apply (intro sound_bnd sound_switch_opt)
        apply (rule "1.IH")
           apply (rule sym, assumption)
        apply simp_all
        done
      done
    done
qed

lemma sound_main_head: "sound pre_call (main_head k)"
  unfolding main_head_def
  by (intro sound_bnd sound_ok sound_ret) simp_all

lemma sound_main_tail: "sound tail_call (main_tail k v args)"
  unfolding main_tail_def Let_def
  by (intro sound_execv sound_if sound_errorf sound_bnd sound_ok sound_case_option sound_ret)
     (simp_all add: dropcaps_def)

lemma main_split:
  "main k uid gid argv = bnd (main_pre k uid gid argv) (\<lambda>(v, g). main_tail k v (rest g))"
  by (simp add: main_def main_pre_def bnd_assoc)

lemma sound_main_pre: "sound pre_call (main_pre k uid gid argv)"
  unfolding main_pre_def by (intro sound_bnd sound_main_head sound_main_loop)

lemma sound_main: "sound any_call (main k uid gid argv)"
  unfolding main_split
  by (intro sound_bnd sound_case_prod sound_mono [OF sound_main_pre] sound_mono [OF sound_main_tail])
     (simp_all add: any_call_def)

text \<open>What soundness says of a whole run, and of the part before the root transition.\<close>

lemma run_seg_ok:
  "seg_ok any_call (halted (fst (run k uid gid argv))) (trace (snd (run k uid gid argv)))"
proof -
  obtain r s' where r: "main k uid gid argv \<lparr>trace = [], err = []\<rparr> = (r, s')"
    by (cases "main k uid gid argv \<lparr>trace = [], err = []\<rparr>")
  with sound_main obtain new where "trace s' = trace \<lparr>trace = [], err = []\<rparr> @ new"
    "seg_ok any_call (halted r) new"
    by (rule soundD)
  with r show ?thesis by (simp add: run_def)
qed

lemma run_events:
  assumes "(c, r) \<in> set (trace (snd (run k uid gid argv)))"
  shows "pre_call c \<or> tail_call c"
  using run_seg_ok [of k uid gid argv] assms
  unfolding seg_ok_def any_call_def by fastforce

lemma is_exec_not_pre_call: "is_exec c \<Longrightarrow> \<not> pre_call c"
  by (cases c) simp_all


lemma main_pre_result:
  assumes "main_pre k uid gid argv s = (r, s')"
  shows "(\<exists>new. trace s' = trace s @ new \<and> (\<forall>e\<in>set new. pre_call (fst e))) \<and>
         halted r \<in> {None, Some Overrun, Some (Exited 255)}"
proof -
  from sound_main_pre assms obtain new
    where new: "trace s' = trace s @ new" "seg_ok pre_call (halted r) new"
    by (rule soundD)
  have "halted r \<noteq> Some Execed"
  proof
    assume "halted r = Some Execed"
    with new(2) have "new \<noteq> []" "is_exec (fst (last new))" "\<forall>e\<in>set new. pre_call (fst e)"
      by (simp_all add: seg_ok_def)
    then have "is_exec (fst (last new))" "pre_call (fst (last new))"
      by simp_all
    then show False by (simp add: is_exec_not_pre_call)
  qed
  with new show ?thesis by (auto simp: seg_ok_def)
qed



subsection \<open>Only \<^verbatim>\<open>-s\<close> sets \<^verbatim>\<open>root_set\<close>\<close>











section \<open>The options, one at a time\<close>

subsection \<open>\<^verbatim>\<open>-b\<close>: rejected, or \<^verbatim>\<open>stat\<close> is called\<close>

lemma opt_b_rejects:
  "bad_bind_arg optarg \<Longrightarrow>
     \<exists>msg. opt_b k v optarg s = (Inl (Exited 255), s\<lparr>err := err s @ [Errorf msg]\<rparr>)"
  by (auto simp: bad_bind_arg_iff opt_b_def errorf_def bnd_def eprint_def exit_prog_def halt_def
        exit_status_def split: option.splits)

lemma opt_b_accept_eq:
  assumes "strchr optarg CHR ''='' = Some i"
    "\<not> (Suc i < length optarg \<and> optarg ! Suc i = CHR ''/'')"
  shows "opt_b k v optarg =
     bnd (info v (''mount: '' @ take i optarg @ '' => '' @ drop (Suc i) optarg @ nl)) (\<lambda>_.
     bnd (ok_stat k ''stat'' (Stat (take i optarg))) (\<lambda>(r, st_mode).
     bnd (bind_onto k (take i optarg) (drop (Suc i) optarg) st_mode) (\<lambda>_.
     ret v)))"
  using assms by (auto simp: opt_b_def Let_def)

lemma opt_b_accepts:
  assumes "\<not> bad_bind_arg optarg"
  shows "\<exists>i r rest. strchr optarg CHR ''='' = Some i \<and>
           trace (snd (opt_b k v optarg s)) = trace s @ (Stat (take i optarg), r) # rest"
proof -
  from assms obtain i where i: "strchr optarg CHR ''='' = Some i"
    "\<not> (Suc i < length optarg \<and> optarg ! Suc i = CHR ''/'')"
    by (auto simp: bad_bind_arg_iff split: option.splits)
  from i(2) have rel: "take 1 (drop (Suc i) optarg) \<noteq> ''/''"
    by (cases "drop (Suc i) optarg") (auto dest!: drop_eq_ConsD)
  define src where "src = take i optarg"
  define dst where "dst = drop (Suc i) optarg"
  define s1 where "s1 = (if verbose v
     then s\<lparr>err := err s @ [Info (''mount: '' @ src @ '' => '' @ dst @ nl)]\<rparr> else s)"
  define r where "r = fst (k (trace s) (Stat src))"
  define s2 where "s2 = s1\<lparr>trace := trace s @ [(Stat src, r)]\<rparr>"
  have t1: "trace s1 = trace s" by (simp add: s1_def)
  have run: "opt_b k v optarg s =
     (if 0 \<le> r
      then bnd (bind_onto k src dst (snd (k (trace s) (Stat src)))) (\<lambda>_. ret v) s2
      else (Inl (Exited 255), s2\<lparr>err := err s1 @ [Failed ''stat'' r]\<rparr>))"
    unfolding opt_b_accept_eq [OF i] bnd_info bnd_ok_stat
    by (simp add: src_def dst_def s1_def s2_def r_def case_prod_beta)
  have "\<exists>rest. trace (snd (opt_b k v optarg s)) = trace s @ (Stat src, r) # rest"
  proof (cases "0 \<le> r")
    case True
    have "sound pre_call (bnd (bind_onto k src dst (snd (k (trace s) (Stat src)))) (\<lambda>_. ret v))"
      using rel by (intro sound_bnd sound_bind_onto sound_ret) (simp add: dst_def)
    from sound_trace [OF this, of s2] True show ?thesis
      by (simp add: run s2_def)
  next
    case False
    then show ?thesis by (simp add: run s2_def)
  qed
  with i(1) show ?thesis unfolding src_def by blast
qed

lemma opt_b_rejects_iff:
  "(\<exists>msg. opt_b k v optarg s = (Inl (Exited 255), s\<lparr>err := err s @ [Errorf msg]\<rparr>)) \<longleftrightarrow>
     (CHR ''='' \<notin> set optarg \<or> (\<exists>src d. optarg = src @ ''=/'' @ d \<and> CHR ''='' \<notin> set src))"
proof
  assume "\<exists>msg. opt_b k v optarg s = (Inl (Exited 255), s\<lparr>err := err s @ [Errorf msg]\<rparr>)"
  then have same: "trace (snd (opt_b k v optarg s)) = trace s" by auto
  have "bad_bind_arg optarg"
  proof (rule ccontr)
    assume "\<not> bad_bind_arg optarg"
    from opt_b_accepts [OF this, of k v s] same show False by auto
  qed
  then show "CHR ''='' \<notin> set optarg \<or> (\<exists>src d. optarg = src @ ''=/'' @ d \<and> CHR ''='' \<notin> set src)"
    by (simp add: bad_bind_arg_def)
next
  assume "CHR ''='' \<notin> set optarg \<or> (\<exists>src d. optarg = src @ ''=/'' @ d \<and> CHR ''='' \<notin> set src)"
  then have "bad_bind_arg optarg" by (simp add: bad_bind_arg_def)
  then show "\<exists>msg. opt_b k v optarg s = (Inl (Exited 255), s\<lparr>err := err s @ [Errorf msg]\<rparr>)"
    by (rule opt_b_rejects)
qed

subsection \<open>\<^verbatim>\<open>-t\<close> and \<^verbatim>\<open>-u\<close> when they return\<close>

lemma opt_t_Inr:
  assumes "opt_t k v optarg s = (Inr v', s')"
  shows "\<exists>r. last (trace s') =
           (Mount ''sandbox-tmp'' optarg (Some ''tmpfs'') (MS_NOSUID OR MS_NOEXEC OR MS_NOATIME)
              (Some ''size=16m,nr_inodes=16k,mode=755''), r) \<and> 0 \<le> r"
  using assms by (auto simp: opt_t_def bnd_Inr_iff ok_Inr_iff ret_def)

lemma opt_u_sequence:
  assumes "opt_u k uid v optarg s = (Inr v', s')"
  shows "\<exists>u fd w c x. sscanf_d optarg = Some u \<and> 0 \<le> fd \<and> 0 \<le> w \<and> 0 \<le> c \<and> 0 \<le> x \<and>
           trace s' = trace s @
             [(Open ''/proc/self/uid_map'' O_WRONLY None, fd),
              (Write fd (id_line u uid) (length (id_line u uid)), w),
              (Close fd, c),
              (Setresuid (word_of_int u) (word_of_int u) (word_of_int u), x)]"
  using assms
  by (auto simp: opt_u_def Let_def bnd_ok bnd_ret ret_def errorf_run
        split: option.splits if_splits)

text \<open>
  For a real uid below \<open>2 ^ 31\<close> the \<^verbatim>\<open>%d\<close> of the real uid prints the uid itself.
\<close>

lemma sint_small:
  assumes "uid < 2 ^ 31"
  shows "sint (uid :: 32 word) = int (unat uid)"
proof -
  from assms have "uint uid < 2 ^ 31" by (simp add: word_less_alt)
  moreover have "- (2 ^ 31) \<le> uint uid"
    by (rule order_trans [OF _ uint_ge_0]) simp
  ultimately have "signed_take_bit 31 (uint uid) = uint uid"
    by (intro signed_take_bit_int_eq_self) simp_all
  then show ?thesis by (simp add: sint_uint)
qed

lemma id_line_small:
  "uid < 2 ^ 31 \<Longrightarrow> id_line u uid = show_int u @ '' '' @ show_nat (unat uid) @ '' 1'' @ nl"
  by (simp add: id_line_def show_int_def sint_small)

subsection \<open>\<^verbatim>\<open>-g\<close>: the guard file absent, the guard file present, a call that fails\<close>




subsection \<open>Destinations that exist\<close>

lemma opt_t_existing:
  assumes "0 \<le> fst (k (trace s) (Lstat tmp))"
  shows "\<exists>r r'. 0 \<le> r \<and>
     trace (snd (opt_t k v tmp s)) = trace s @
       [(Lstat tmp, r),
        (Mount ''sandbox-tmp'' tmp (Some ''tmpfs'') (MS_NOSUID OR MS_NOEXEC OR MS_NOATIME)
           (Some ''size=16m,nr_inodes=16k,mode=755''), r')] \<and>
     (0 \<le> r' \<longrightarrow> fst (opt_t k v tmp s) = Inr v)"
  using assms
  by (simp add: opt_t_def bnd_info bnd_call bnd_ok bnd_ret ret_def not_less [symmetric])

lemma opt_b_existing_dir:
  assumes "strchr optarg CHR ''='' = Some i"
    "\<not> (Suc i < length optarg \<and> optarg ! Suc i = CHR ''/'')"
    "src = take i optarg" "dst = drop (Suc i) optarg"
    "k (trace s) (Stat src) = (r0, m)" "0 \<le> r0" "S_ISDIR m"
    "0 \<le> fst (k (trace s @ [(Stat src, r0)]) (Lstat dst))"
  shows "\<exists>r r'. 0 \<le> r \<and>
     trace (snd (opt_b k v optarg s)) = trace s @
       [(Stat src, r0), (Lstat dst, r), (Mount src dst None (MS_REC OR MS_BIND) None, r')] \<and>
     (0 \<le> r' \<longrightarrow> fst (opt_b k v optarg s) = Inr v)"
  using assms(3-)
  unfolding opt_b_accept_eq [OF assms(1,2)]
  by (simp add: bnd_assoc bnd_info bnd_ok_stat bind_onto_def bnd_call bnd_ok bnd_ret ret_def
        not_less [symmetric])

lemma opt_b_existing_file:
  assumes "strchr optarg CHR ''='' = Some i"
    "\<not> (Suc i < length optarg \<and> optarg ! Suc i = CHR ''/'')"
    "src = take i optarg" "dst = drop (Suc i) optarg"
    "k (trace s) (Stat src) = (r0, m)" "0 \<le> r0" "\<not> S_ISDIR m"
  shows "\<exists>fd rest.
     trace (snd (opt_b k v optarg s)) = trace s @
       (Stat src, r0) # (Open dst (O_WRONLY OR O_CREAT) (Some mode_0666), fd) # rest \<and>
     (O_WRONLY OR O_CREAT) AND O_EXCL = 0 \<and>
     (0 \<le> fd \<longrightarrow>
        (\<exists>c rest'. rest = (Close fd, c) # rest' \<and>
           (0 \<le> c \<longrightarrow>
              (\<exists>r'. rest' = [(Mount src dst None MS_BIND None, r')] \<and>
                 (0 \<le> r' \<longrightarrow> fst (opt_b k v optarg s) = Inr v)))))"
proof -
  have "(O_WRONLY OR O_CREAT) AND O_EXCL = 0"
    by (simp add: O_WRONLY_def O_CREAT_def O_EXCL_def)
  with assms(3-) show ?thesis
    unfolding opt_b_accept_eq [OF assms(1,2)]
    by (simp add: bnd_assoc bnd_info bnd_ok_stat bind_onto_def bnd_call bnd_ok bnd_ret ret_def)
qed

lemma recursive_mkdir_loop_existing:
  assumes "\<forall>tr p. 0 \<le> fst (k tr (Lstat p)) \<and> snd (k tr (Lstat p)) AND S_IFDIR \<noteq> 0"
  shows "\<exists>new. trace (snd (recursive_mkdir_loop k dir mode end s)) = trace s @ new \<and>
           (\<forall>e\<in>set new. \<exists>p. fst e = Lstat p) \<and>
           (length dir < 1024 \<longrightarrow> fst (recursive_mkdir_loop k dir mode end s) = Inr ())"
  using assms
proof (induction k dir mode "end" arbitrary: s rule: recursive_mkdir_loop.induct)
  case (1 k dir mode "end")
  define e where "e = end + 1 + strchrnul (drop (end + 1) dir) CHR ''/''"
  define s1 where "s1 = s\<lparr>trace := trace s @
      [(Lstat (take e dir), fst (k (trace s) (Lstat (take e dir))))]\<rparr>"
  from "1.prems" have dirs: "0 \<le> fst (k (trace s) (Lstat (take e dir)))"
    "snd (k (trace s) (Lstat (take e dir))) AND S_IFDIR \<noteq> 0"
    by simp_all
  have run: "recursive_mkdir_loop k dir mode end s =
     (if end < length dir
      then if 1024 \<le> e then (Inl Overrun, s) else recursive_mkdir_loop k dir mode e s1
      else (Inr (), s))"
    apply (subst recursive_mkdir_loop.simps)
    apply (simp only: Let_def e_def [symmetric])
    apply (simp add: bnd_sys halt_def ret_def s1_def case_prod_beta dirs)
    done
  have le: "end < length dir \<Longrightarrow> e \<le> length dir"
    using strchrnul_le [of "drop (end + 1) dir" "CHR ''/''"] by (simp add: e_def)
  show ?case
  proof (cases "end < length dir \<and> \<not> 1024 \<le> e")
    case False
    with le show ?thesis by (auto simp: run)
  next
    case True
    from "1.IH"(1) [where xb = 0 and xc = S_IFDIR, OF _ e_def refl _ _ "1.prems", of s1] True
    obtain new where new: "trace (snd (recursive_mkdir_loop k dir mode e s1)) = trace s1 @ new"
      "\<forall>e\<in>set new. \<exists>p. fst e = Lstat p"
      "length dir < 1024 \<longrightarrow> fst (recursive_mkdir_loop k dir mode e s1) = Inr ()"
      by (auto simp: S_IFDIR_def)
    from new(1) True have "trace (snd (recursive_mkdir_loop k dir mode end s)) =
        trace s @ ((Lstat (take e dir), fst (k (trace s) (Lstat (take e dir)))) # new)"
      by (simp add: run s1_def)
    moreover from new(2) have "\<forall>x\<in>set ((Lstat (take e dir),
        fst (k (trace s) (Lstat (take e dir)))) # new). \<exists>p. fst x = Lstat p"
      by simp
    moreover from new(3) True
    have "length dir < 1024 \<longrightarrow> fst (recursive_mkdir_loop k dir mode end s) = Inr ()"
      by (simp add: run)
    ultimately show ?thesis by blast
  qed
qed

subsection \<open>The root transition, when \<^verbatim>\<open>execv\<close> succeeds\<close>

lemma main_tail_Execed:
  assumes "main_tail k v args s = (Inl Execed, s')"
  shows "\<exists>r1 r2 r3 r4 r5 r6 post.
     trace s' = trace s @
       [(Mkdir ''.oldroot'' mode_0755, r1), (Pivot_root ''.'' ''.oldroot'', r2),
        (Chroot ''.'', r3), (Umount2 ''.oldroot'' MNT_DETACH, r4), (Rmdir ''.oldroot'', r5),
        (Mount ''/'' ''/'' None
           (MS_REMOUNT OR MS_BIND OR MS_NOEXEC OR MS_NOSUID OR MS_NODEV OR MS_RDONLY) None, r6)]
       @ post \<and>
     0 \<le> r1 \<and> 0 \<le> r2 \<and> 0 \<le> r3 \<and> 0 \<le> r4 \<and> 0 \<le> r5 \<and> 0 \<le> r6 \<and>
     (\<exists>r8 r9 b. 0 \<le> r8 \<and> 0 \<le> r9 \<and>
        (post = [(dropcaps, r8), (Execv b args, r9)] \<or>
         (\<exists>d r7. child_dir v = Some d \<and> 0 \<le> r7 \<and>
            post = [(Chdir d, r7), (dropcaps, r8), (Execv b args, r9)])))"
proof (cases "child_dir v")
  case None
  with assms show ?thesis
    apply (simp add: main_tail_def Let_def errorf_run bnd_ret_fun split: if_splits)
    apply (elim bnd_ok_ExecedE execv_ExecedE)
    apply simp
    done
next
  case (Some d)
  with assms show ?thesis
    apply (simp add: main_tail_def Let_def errorf_run bnd_ret_fun bnd_assoc split: if_splits)
    apply (elim bnd_ok_ExecedE execv_ExecedE)
    apply simp
    done
qed

section \<open>Concrete runs\<close>

text \<open>
  \<^verbatim>\<open>mkbox -s /srv/sandbox -t tmp /bin/sh\<close> on a fresh sandbox root, and its \<^verbatim>\<open>-t tmp\<close>
  alone.
\<close>

lemma run_fresh_tmp:
  "run kernel_fresh 1000 1000 [''mkbox'', ''-s'', ''/srv/sandbox'', ''-t'', ''tmp'', ''/bin/sh''] =
     (Inl Execed,
      \<lparr>trace =
         [(Prctl PR_SET_PDEATHSIG SIGKILL, 0), (Unshare unshare_flags, 0),
          (Setdomainname ''localdomain'' 11, 0), (Sethostname ''localhost'' 9, 0),
          (Mount ''none'' ''/'' None (MS_REC OR MS_PRIVATE) None, 0),
          (Mount ''/srv/sandbox'' ''/srv/sandbox'' None (MS_BIND OR MS_NOSUID) None, 0),
          (Chdir ''/srv/sandbox'', 0),
          (Lstat ''tmp'', - 1), (Lstat ''tmp'', - 1), (Mkdir ''tmp'' mode_0755, 0),
          (Mount ''sandbox-tmp'' ''tmp'' (Some ''tmpfs'') (MS_NOSUID OR MS_NOEXEC OR MS_NOATIME)
             (Some ''size=16m,nr_inodes=16k,mode=755''), 0),
          (Mkdir ''.oldroot'' mode_0755, 0), (Pivot_root ''.'' ''.oldroot'', 0),
          (Chroot ''.'', 0), (Umount2 ''.oldroot'' MNT_DETACH, 0), (Rmdir ''.oldroot'', 0),
          (Mount ''/'' ''/'' None
             (MS_REMOUNT OR MS_BIND OR MS_NOEXEC OR MS_NOSUID OR MS_NODEV OR MS_RDONLY) None, 0),
          (dropcaps, 0), (Execv (Some ''/bin/sh'') [''/bin/sh''], 0)],
       err = [Info (''root dir: /srv/sandbox'' @ nl), Info (''tmp: tmp'' @ nl)]\<rparr>)"
  by (simp add: prog_defs kernel_fresh_def)

lemma opt_t_fresh:
  "opt_t kernel_fresh \<lparr>verbose = True, root_set = True, child_dir = None, binary = None\<rparr>
     ''tmp'' \<lparr>trace = [], err = []\<rparr> =
   (Inr \<lparr>verbose = True, root_set = True, child_dir = None, binary = None\<rparr>,
    \<lparr>trace = [(Lstat ''tmp'', - 1), (Lstat ''tmp'', - 1), (Mkdir ''tmp'' mode_0755, 0),
              (Mount ''sandbox-tmp'' ''tmp'' (Some ''tmpfs'')
                 (MS_NOSUID OR MS_NOEXEC OR MS_NOATIME)
                 (Some ''size=16m,nr_inodes=16k,mode=755''), 0)],
      err = [Info (''tmp: tmp'' @ nl)]\<rparr>)"
  by (simp add: prog_defs kernel_fresh_def)







text \<open>
  On a sandbox root used before: \<^verbatim>\<open>-t tmp\<close>, \<^verbatim>\<open>-b /usr=usr\<close> (a directory),
  \<^verbatim>\<open>-b /etc/resolv.conf=etc/resolv.conf\<close> (a file) and
  \<^verbatim>\<open>recursive_mkdir("tmp/work")\<close>.
\<close>

lemma opt_t_rerun:
  "opt_t kernel_rerun \<lparr>verbose = True, root_set = True, child_dir = None, binary = None\<rparr>
     ''tmp'' \<lparr>trace = [], err = []\<rparr> =
   (Inr \<lparr>verbose = True, root_set = True, child_dir = None, binary = None\<rparr>,
    \<lparr>trace = [(Lstat ''tmp'', 0),
              (Mount ''sandbox-tmp'' ''tmp'' (Some ''tmpfs'') (MS_NOSUID OR MS_NOEXEC OR MS_NOATIME)
                 (Some ''size=16m,nr_inodes=16k,mode=755''), 0)],
      err = [Info (''tmp: tmp'' @ nl)]\<rparr>)"
  by (simp add: prog_defs kernel_rerun_def kernel_fresh_def)

lemma opt_b_rerun_dir:
  "opt_b kernel_rerun \<lparr>verbose = True, root_set = True, child_dir = None, binary = None\<rparr>
     ''/usr=usr'' \<lparr>trace = [], err = []\<rparr> =
   (Inr \<lparr>verbose = True, root_set = True, child_dir = None, binary = None\<rparr>,
    \<lparr>trace = [(Stat ''/usr'', 0), (Lstat ''usr'', 0),
              (Mount ''/usr'' ''usr'' None (MS_REC OR MS_BIND) None, 0)],
      err = [Info (''mount: /usr => usr'' @ nl)]\<rparr>)"
  by (simp add: prog_defs kernel_rerun_def kernel_fresh_def)

lemma opt_b_rerun_file:
  "opt_b kernel_rerun \<lparr>verbose = True, root_set = True, child_dir = None, binary = None\<rparr>
     ''/etc/resolv.conf=etc/resolv.conf'' \<lparr>trace = [], err = []\<rparr> =
   (Inr \<lparr>verbose = True, root_set = True, child_dir = None, binary = None\<rparr>,
    \<lparr>trace = [(Stat ''/etc/resolv.conf'', 0),
              (Open ''etc/resolv.conf'' (O_WRONLY OR O_CREAT) (Some mode_0666), 3),
              (Close 3, 0),
              (Mount ''/etc/resolv.conf'' ''etc/resolv.conf'' None MS_BIND None, 0)],
      err = [Info (''mount: /etc/resolv.conf => etc/resolv.conf'' @ nl)]\<rparr>)"
  by (simp add: prog_defs kernel_rerun_def kernel_fresh_def)

lemma recursive_mkdir_rerun:
  "recursive_mkdir kernel_rerun ''tmp/work'' mode_0755 \<lparr>trace = [], err = []\<rparr> =
     (Inr (), \<lparr>trace = [(Lstat ''tmp'', 0), (Lstat ''tmp/work'', 0)], err = []\<rparr>)"
  by (simp add: prog_defs kernel_rerun_def kernel_fresh_def)

section \<open>The claims\<close>

subsection \<open>C1: no \<^verbatim>\<open>-s\<close>\<close>




subsection \<open>C2: the mount that makes the root private\<close>

text \<open>
  C2 says that a failure of any step of the filesystem assembly is fatal, the step that
  marks the root mount recursively private included. That \<^verbatim>\<open>mount\<close> (line 121) is the
  one call of \<^verbatim>\<open>case 's'\<close> outside \<^verbatim>\<open>ok\<close>: when it returns \<open>-1\<close> and every other call
  succeeds, \<^verbatim>\<open>mkbox -s /srv/sandbox /bin/sh\<close> runs on to the bind mount, the pivot and
  \<^verbatim>\<open>execv\<close>.
\<close>

theorem private_mount_failure_ignored:
  "run kernel_shared 1000 1000 [''mkbox'', ''-s'', ''/srv/sandbox'', ''/bin/sh''] =
     (Inl Execed,
      \<lparr>trace =
         [(Prctl PR_SET_PDEATHSIG SIGKILL, 0), (Unshare unshare_flags, 0),
          (Setdomainname ''localdomain'' 11, 0), (Sethostname ''localhost'' 9, 0),
          (Mount ''none'' ''/'' None (MS_REC OR MS_PRIVATE) None, - 1),
          (Mount ''/srv/sandbox'' ''/srv/sandbox'' None (MS_BIND OR MS_NOSUID) None, 0),
          (Chdir ''/srv/sandbox'', 0),
          (Mkdir ''.oldroot'' mode_0755, 0), (Pivot_root ''.'' ''.oldroot'', 0),
          (Chroot ''.'', 0), (Umount2 ''.oldroot'' MNT_DETACH, 0), (Rmdir ''.oldroot'', 0),
          (Mount ''/'' ''/'' None
             (MS_REMOUNT OR MS_BIND OR MS_NOEXEC OR MS_NOSUID OR MS_NODEV OR MS_RDONLY) None, 0),
          (dropcaps, 0), (Execv (Some ''/bin/sh'') [''/bin/sh''], 0)],
       err = [Info (''root dir: /srv/sandbox'' @ nl)]\<rparr>)"
  by (simp add: prog_defs kernel_shared_def kernel_fresh_def)

subsection \<open>C3: the flags of the tmpfs mount\<close>

text \<open>
  C3, as the code has it. Every tmpfs mount of a run is made with exactly
  \<^verbatim>\<open>MS_NOSUID|MS_NOEXEC|MS_NOATIME\<close>: no-setuid, non-executable and no-atime.
  \<^verbatim>\<open>MS_NODEV\<close> is not among the flags.
\<close>

theorem tmpfs_mount_flags:
  assumes "(Mount src tgt (Some ''tmpfs'') fl d, r) \<in> set (trace (snd (run k uid gid argv)))"
  shows "fl = MS_NOSUID OR MS_NOEXEC OR MS_NOATIME \<and>
         fl AND MS_NOSUID = MS_NOSUID \<and> fl AND MS_NOEXEC = MS_NOEXEC \<and>
         fl AND MS_NOATIME = MS_NOATIME \<and> fl AND MS_NODEV = 0"
proof -
  from assms
  have "pre_call (Mount src tgt (Some ''tmpfs'') fl d) \<or>
        tail_call (Mount src tgt (Some ''tmpfs'') fl d)"
    by (rule run_events)
  then have "fl = MS_NOSUID OR MS_NOEXEC OR MS_NOATIME" by auto
  then show ?thesis
    by (simp add: MS_NOSUID_def MS_NOEXEC_def MS_NOATIME_def MS_NODEV_def)
qed

text \<open>The theorem at \<^verbatim>\<open>mkbox -s /srv/sandbox -t tmp /bin/sh\<close>.\<close>

theorem tmpfs_mount_flags_witness:
  "(Mount ''sandbox-tmp'' ''tmp'' (Some ''tmpfs'') (MS_NOSUID OR MS_NOEXEC OR MS_NOATIME)
      (Some ''size=16m,nr_inodes=16k,mode=755''), 0)
     \<in> set (trace (snd (run kernel_fresh 1000 1000
           [''mkbox'', ''-s'', ''/srv/sandbox'', ''-t'', ''tmp'', ''/bin/sh'']))) \<and>
   (MS_NOSUID OR MS_NOEXEC OR MS_NOATIME) AND MS_NOSUID = MS_NOSUID \<and>
   (MS_NOSUID OR MS_NOEXEC OR MS_NOATIME) AND MS_NOEXEC = MS_NOEXEC \<and>
   (MS_NOSUID OR MS_NOEXEC OR MS_NOATIME) AND MS_NOATIME = MS_NOATIME \<and>
   (MS_NOSUID OR MS_NOEXEC OR MS_NOATIME) AND MS_NODEV = 0"
proof -
  have m: "(Mount ''sandbox-tmp'' ''tmp'' (Some ''tmpfs'') (MS_NOSUID OR MS_NOEXEC OR MS_NOATIME)
      (Some ''size=16m,nr_inodes=16k,mode=755''), 0)
     \<in> set (trace (snd (run kernel_fresh 1000 1000
           [''mkbox'', ''-s'', ''/srv/sandbox'', ''-t'', ''tmp'', ''/bin/sh''])))"
    by (simp add: run_fresh_tmp)
  from tmpfs_mount_flags [OF m] m show ?thesis by simp
qed

text \<open>
  C3 as stated fails: the tmpfs mount of \<^verbatim>\<open>mkbox -s /srv/sandbox -t tmp /bin/sh\<close> does
  not carry \<^verbatim>\<open>MS_NODEV\<close>.
\<close>

theorem tmpfs_mount_without_nodev:
  "(Mount ''sandbox-tmp'' ''tmp'' (Some ''tmpfs'') (MS_NOSUID OR MS_NOEXEC OR MS_NOATIME)
      (Some ''size=16m,nr_inodes=16k,mode=755''), 0)
     \<in> set (trace (snd (run kernel_fresh 1000 1000
           [''mkbox'', ''-s'', ''/srv/sandbox'', ''-t'', ''tmp'', ''/bin/sh'']))) \<and>
   (MS_NOSUID OR MS_NOEXEC OR MS_NOATIME) AND MS_NODEV = 0"
  by (simp add: run_fresh_tmp MS_NOSUID_def MS_NOEXEC_def MS_NOATIME_def MS_NODEV_def)

subsection \<open>C4: the read-only remount ends the mounting\<close>

text \<open>
  C4. In every run that ends with a successful \<^verbatim>\<open>execv\<close>, the trace is: calls of the
  head and the option loop; then \<^verbatim>\<open>mkdir .oldroot\<close>, \<^verbatim>\<open>pivot_root\<close>, \<^verbatim>\<open>chroot\<close>,
  \<^verbatim>\<open>umount2\<close> with \<^verbatim>\<open>MNT_DETACH\<close>, \<^verbatim>\<open>rmdir\<close> and the remount of \<^verbatim>\<open>/\<close> with
  \<^verbatim>\<open>MS_REMOUNT|MS_BIND|MS_NOEXEC|MS_NOSUID|MS_NODEV|MS_RDONLY\<close>, all successful; then
  only the optional \<^verbatim>\<open>chdir\<close>, \<^verbatim>\<open>capset\<close> and \<^verbatim>\<open>execv\<close>. No mount operation
  follows the remount.
\<close>

theorem remount_is_last_mount_op:
  assumes "run k uid gid argv = (Inl Execed, s)"
  shows "\<exists>pre r1 r2 r3 r4 r5 r6 post.
     trace s = pre @
       [(Mkdir ''.oldroot'' mode_0755, r1), (Pivot_root ''.'' ''.oldroot'', r2),
        (Chroot ''.'', r3), (Umount2 ''.oldroot'' MNT_DETACH, r4), (Rmdir ''.oldroot'', r5),
        (Mount ''/'' ''/'' None
           (MS_REMOUNT OR MS_BIND OR MS_NOEXEC OR MS_NOSUID OR MS_NODEV OR MS_RDONLY) None, r6)]
       @ post \<and>
     0 \<le> r1 \<and> 0 \<le> r2 \<and> 0 \<le> r3 \<and> 0 \<le> r4 \<and> 0 \<le> r5 \<and> 0 \<le> r6 \<and>
     (\<forall>e\<in>set pre. pre_call (fst e)) \<and>
     (\<forall>e\<in>set post. \<not> mount_op (fst e)) \<and>
     (\<exists>r8 r9 b a. 0 \<le> r8 \<and> 0 \<le> r9 \<and>
        (post = [(dropcaps, r8), (Execv b a, r9)] \<or>
         (\<exists>d r7. 0 \<le> r7 \<and> post = [(Chdir d, r7), (dropcaps, r8), (Execv b a, r9)])))"
proof -
  let ?s0 = "\<lparr>trace = [], err = []\<rparr>"
  obtain r1 s1 where pre: "main_pre k uid gid argv ?s0 = (r1, s1)"
    by (cases "main_pre k uid gid argv ?s0")
  from main_pre_result [OF pre]
  have p: "\<forall>e\<in>set (trace s1). pre_call (fst e)" "halted r1 \<noteq> Some Execed"
    by auto
  from assms pre p(2)
  have "\<exists>v (g :: getopt_state). main_tail k v (rest g) s1 = (Inl Execed, s)"
    by (cases r1) (auto simp: run_def main_split bnd_def)
  then obtain v and g :: getopt_state where tail: "main_tail k v (rest g) s1 = (Inl Execed, s)"
    by blast
  from main_tail_Execed [OF tail] p(1) show ?thesis
    apply (elim exE conjE)
    subgoal for r1 r2 r3 r4 r5 r6 post r8 r9 b
      apply (rule exI [of _ "trace s1"])
      apply (rule exI [of _ r1], rule exI [of _ r2], rule exI [of _ r3],
             rule exI [of _ r4], rule exI [of _ r5], rule exI [of _ r6])
      apply (rule exI [of _ post])
      apply (auto simp: dropcaps_def)
      done
    done
qed

text \<open>The theorem at \<^verbatim>\<open>mkbox -s /srv/sandbox -t tmp /bin/sh\<close>.\<close>

theorem remount_is_last_mount_op_witness:
  "run kernel_fresh 1000 1000 [''mkbox'', ''-s'', ''/srv/sandbox'', ''-t'', ''tmp'', ''/bin/sh''] =
     (Inl Execed,
      snd (run kernel_fresh 1000 1000
             [''mkbox'', ''-s'', ''/srv/sandbox'', ''-t'', ''tmp'', ''/bin/sh''])) \<and>
   (\<exists>pre r1 r2 r3 r4 r5 r6 post.
     trace (snd (run kernel_fresh 1000 1000
             [''mkbox'', ''-s'', ''/srv/sandbox'', ''-t'', ''tmp'', ''/bin/sh''])) = pre @
       [(Mkdir ''.oldroot'' mode_0755, r1), (Pivot_root ''.'' ''.oldroot'', r2),
        (Chroot ''.'', r3), (Umount2 ''.oldroot'' MNT_DETACH, r4), (Rmdir ''.oldroot'', r5),
        (Mount ''/'' ''/'' None
           (MS_REMOUNT OR MS_BIND OR MS_NOEXEC OR MS_NOSUID OR MS_NODEV OR MS_RDONLY) None, r6)]
       @ post \<and>
     0 \<le> r1 \<and> 0 \<le> r2 \<and> 0 \<le> r3 \<and> 0 \<le> r4 \<and> 0 \<le> r5 \<and> 0 \<le> r6 \<and>
     (\<forall>e\<in>set pre. pre_call (fst e)) \<and>
     (\<forall>e\<in>set post. \<not> mount_op (fst e)) \<and>
     (\<exists>r8 r9 b a. 0 \<le> r8 \<and> 0 \<le> r9 \<and>
        (post = [(dropcaps, r8), (Execv b a, r9)] \<or>
         (\<exists>d r7. 0 \<le> r7 \<and> post = [(Chdir d, r7), (dropcaps, r8), (Execv b a, r9)]))))"
proof -
  have r: "run kernel_fresh 1000 1000
       [''mkbox'', ''-s'', ''/srv/sandbox'', ''-t'', ''tmp'', ''/bin/sh''] =
     (Inl Execed,
      snd (run kernel_fresh 1000 1000
             [''mkbox'', ''-s'', ''/srv/sandbox'', ''-t'', ''tmp'', ''/bin/sh'']))"
    by (simp add: run_fresh_tmp)
  from r remount_is_last_mount_op [OF r] show ?thesis by (rule conjI)
qed

subsection \<open>C5: a bad \<^verbatim>\<open>-b\<close> argument is rejected before any call\<close>

text \<open>
  C5. When \<^verbatim>\<open>getopt\<close> delivers \<^verbatim>\<open>-b\<close> with an argument that has no \<^verbatim>\<open>=\<close>, or whose
  destination starts with \<^verbatim>\<open>/\<close>, the process exits with status 255 and the state
  differs only by the line that \<^verbatim>\<open>errorf\<close> printed: the trace is unchanged, so no
  \<^verbatim>\<open>stat\<close>, no creation and no \<^verbatim>\<open>mount\<close> was called for the rule.
\<close>

theorem bind_rejected_before_any_call:
  assumes "getopt g optstring = (Some (CHR ''b'', optarg), g')"
    and "CHR ''='' \<notin> set optarg \<or> (\<exists>src d. optarg = src @ ''=/'' @ d \<and> CHR ''='' \<notin> set src)"
  shows "\<exists>msg. main_loop k uid gid g v s = (Inl (Exited 255), s\<lparr>err := err s @ [Errorf msg]\<rparr>)"
proof -
  from assms(2) have "bad_bind_arg optarg" by (simp add: bad_bind_arg_def)
  then obtain msg
    where "opt_b k v optarg s = (Inl (Exited 255), s\<lparr>err := err s @ [Errorf msg]\<rparr>)"
    using opt_b_rejects by blast
  with assms(1)
  have "main_loop k uid gid g v s = (Inl (Exited 255), s\<lparr>err := err s @ [Errorf msg]\<rparr>)"
    by (subst main_loop.simps) (simp add: switch_opt_def bnd_def)
  then show ?thesis ..
qed

text \<open>The theorem at \<^verbatim>\<open>-b /usr=/x\<close>.\<close>

theorem bind_rejected_before_any_call_witness:
  "getopt \<lparr>nextchar = [], rest = [''-b'', ''/usr=/x'']\<rparr> optstring =
     (Some (CHR ''b'', ''/usr=/x''), \<lparr>nextchar = [], rest = []\<rparr>) \<and>
   (\<exists>msg. main_loop kernel_fresh 1000 1000 \<lparr>nextchar = [], rest = [''-b'', ''/usr=/x'']\<rparr>
            \<lparr>verbose = True, root_set = False, child_dir = None, binary = None\<rparr>
            \<lparr>trace = [], err = []\<rparr> =
          (Inl (Exited 255), \<lparr>trace = [], err = [Errorf msg]\<rparr>))"
proof -
  have g: "getopt \<lparr>nextchar = [], rest = [''-b'', ''/usr=/x'']\<rparr> optstring =
     (Some (CHR ''b'', ''/usr=/x''), \<lparr>nextchar = [], rest = []\<rparr>)"
    by (simp add: getopt_def optstring_def getopt_take_def opt_kind_def strchr_def)
  have b: "CHR ''='' \<notin> set ''/usr=/x'' \<or>
      (\<exists>src d. ''/usr=/x'' = src @ ''=/'' @ d \<and> CHR ''='' \<notin> set src)"
    by (intro disjI2 exI [of _ "''/usr''"] exI [of _ "''x''"]) simp
  from bind_rejected_before_any_call [OF g b, of kernel_fresh 1000 1000
      "\<lparr>verbose = True, root_set = False, child_dir = None, binary = None\<rparr>"
      "\<lparr>trace = [], err = []\<rparr>"] g
  show ?thesis by simp
qed

subsection \<open>C6: the line written to \<^verbatim>\<open>uid_map\<close>\<close>

text \<open>
  C6 says that \<^verbatim>\<open>-u u\<close> writes the line \<^verbatim>\<open>u r 1\<close> for the real uid \<open>r\<close>. The uid is a
  \<^verbatim>\<open>uid_t\<close> and line 207 prints it with \<^verbatim>\<open>%d\<close>: for the real uid \<open>2 ^ 31\<close> the line
  written by \<^verbatim>\<open>mkbox -s /srv/sandbox -u 1000 /bin/sh\<close> is \<^verbatim>\<open>1000 -2147483648 1\<close>.
  (For a real uid below \<open>2 ^ 31\<close> the line is as C6 says, by \<open>opt_u_sequence\<close> and
  \<open>id_line_small\<close>, and \<^verbatim>\<open>setresuid(u, u, u)\<close> follows.)
\<close>

theorem uid_line_negative_for_large_uid:
  "run kernel_fresh 2147483648 1000
     [''mkbox'', ''-s'', ''/srv/sandbox'', ''-u'', ''1000'', ''/bin/sh''] =
     (Inl Execed,
      \<lparr>trace =
         [(Prctl PR_SET_PDEATHSIG SIGKILL, 0), (Unshare unshare_flags, 0),
          (Setdomainname ''localdomain'' 11, 0), (Sethostname ''localhost'' 9, 0),
          (Mount ''none'' ''/'' None (MS_REC OR MS_PRIVATE) None, 0),
          (Mount ''/srv/sandbox'' ''/srv/sandbox'' None (MS_BIND OR MS_NOSUID) None, 0),
          (Chdir ''/srv/sandbox'', 0),
          (Open ''/proc/self/uid_map'' O_WRONLY None, 3),
          (Write 3 (''1000 -2147483648 1'' @ nl) 19, 19), (Close 3, 0),
          (Setresuid 1000 1000 1000, 0),
          (Mkdir ''.oldroot'' mode_0755, 0), (Pivot_root ''.'' ''.oldroot'', 0),
          (Chroot ''.'', 0), (Umount2 ''.oldroot'' MNT_DETACH, 0), (Rmdir ''.oldroot'', 0),
          (Mount ''/'' ''/'' None
             (MS_REMOUNT OR MS_BIND OR MS_NOEXEC OR MS_NOSUID OR MS_NODEV OR MS_RDONLY) None, 0),
          (dropcaps, 0), (Execv (Some ''/bin/sh'') [''/bin/sh''], 0)],
       err = [Info (''root dir: /srv/sandbox'' @ nl)]\<rparr>)"
  by (simp add: prog_defs kernel_fresh_def nl_def)

subsection \<open>C7: the guard file of \<^verbatim>\<open>-g\<close>\<close>



subsection \<open>C8: a destination that exists is not created again\<close>

text \<open>
  C8. \<^verbatim>\<open>-t\<close>: when \<^verbatim>\<open>lstat\<close> finds the mount point, the calls of \<^verbatim>\<open>case 't'\<close> are
  that \<^verbatim>\<open>lstat\<close> and the tmpfs \<^verbatim>\<open>mount\<close>, with no creation in between, and \<^verbatim>\<open>-t\<close>
  returns when the \<^verbatim>\<open>mount\<close> succeeds. \<^verbatim>\<open>-b\<close>, with a relative destination and a
  source that \<^verbatim>\<open>stat\<close> finds: if the source is a directory and \<^verbatim>\<open>lstat\<close> finds the
  destination, the calls are \<^verbatim>\<open>stat\<close>, \<^verbatim>\<open>lstat\<close> and the \<^verbatim>\<open>mount\<close> with
  \<^verbatim>\<open>MS_REC|MS_BIND\<close>, and \<^verbatim>\<open>-b\<close> returns when the \<^verbatim>\<open>mount\<close> succeeds; if the
  source is not a directory, the destination is opened with \<^verbatim>\<open>O_WRONLY|O_CREAT\<close> and
  mode 0666, flags that do not hold \<^verbatim>\<open>O_EXCL\<close>, and when the \<^verbatim>\<open>open\<close> succeeds the
  \<^verbatim>\<open>close\<close> follows, then the \<^verbatim>\<open>mount\<close> with \<^verbatim>\<open>MS_BIND\<close>, and \<^verbatim>\<open>-b\<close> returns
  when that succeeds. \<^verbatim>\<open>recursive_mkdir\<close>: where \<^verbatim>\<open>lstat\<close> finds every component as a
  directory, it calls \<^verbatim>\<open>lstat\<close> only, and it returns for a path shorter than 1024
  bytes.
\<close>

theorem existing_target_not_created:
  "(0 \<le> fst (k (trace s) (Lstat tmp)) \<longrightarrow>
      (\<exists>r r'. 0 \<le> r \<and>
         trace (snd (opt_t k v tmp s)) = trace s @
           [(Lstat tmp, r),
            (Mount ''sandbox-tmp'' tmp (Some ''tmpfs'') (MS_NOSUID OR MS_NOEXEC OR MS_NOATIME)
               (Some ''size=16m,nr_inodes=16k,mode=755''), r')] \<and>
         (0 \<le> r' \<longrightarrow> fst (opt_t k v tmp s) = Inr v))) \<and>
   (strchr optarg CHR ''='' = Some i \<and>
    \<not> (Suc i < length optarg \<and> optarg ! Suc i = CHR ''/'') \<and>
    src = take i optarg \<and> dst = drop (Suc i) optarg \<and>
    k (trace s) (Stat src) = (r0, m) \<and> 0 \<le> r0 \<longrightarrow>
      (if S_ISDIR m then
         0 \<le> fst (k (trace s @ [(Stat src, r0)]) (Lstat dst)) \<longrightarrow>
           (\<exists>r r'. 0 \<le> r \<and>
              trace (snd (opt_b k v optarg s)) = trace s @
                [(Stat src, r0), (Lstat dst, r),
                 (Mount src dst None (MS_REC OR MS_BIND) None, r')] \<and>
              (0 \<le> r' \<longrightarrow> fst (opt_b k v optarg s) = Inr v))
       else
         (\<exists>fd rest.
            trace (snd (opt_b k v optarg s)) = trace s @
              (Stat src, r0) # (Open dst (O_WRONLY OR O_CREAT) (Some mode_0666), fd) # rest \<and>
            (O_WRONLY OR O_CREAT) AND O_EXCL = 0 \<and>
            (0 \<le> fd \<longrightarrow>
               (\<exists>c rest'. rest = (Close fd, c) # rest' \<and>
                  (0 \<le> c \<longrightarrow>
                     (\<exists>r'. rest' = [(Mount src dst None MS_BIND None, r')] \<and>
                        (0 \<le> r' \<longrightarrow> fst (opt_b k v optarg s) = Inr v)))))))) \<and>
   ((\<forall>tr p. 0 \<le> fst (k tr (Lstat p)) \<and> snd (k tr (Lstat p)) AND S_IFDIR \<noteq> 0) \<longrightarrow>
      (\<exists>new. trace (snd (recursive_mkdir k dir mode s)) = trace s @ new \<and>
         (\<forall>e\<in>set new. \<exists>p. fst e = Lstat p) \<and>
         (length dir < 1024 \<longrightarrow> fst (recursive_mkdir k dir mode s) = Inr ())))"
proof (intro conjI impI)
  assume "0 \<le> fst (k (trace s) (Lstat tmp))"
  then show "\<exists>r r'. 0 \<le> r \<and>
         trace (snd (opt_t k v tmp s)) = trace s @
           [(Lstat tmp, r),
            (Mount ''sandbox-tmp'' tmp (Some ''tmpfs'') (MS_NOSUID OR MS_NOEXEC OR MS_NOATIME)
               (Some ''size=16m,nr_inodes=16k,mode=755''), r')] \<and>
         (0 \<le> r' \<longrightarrow> fst (opt_t k v tmp s) = Inr v)"
    by (rule opt_t_existing)
next
  assume h: "strchr optarg CHR ''='' = Some i \<and>
    \<not> (Suc i < length optarg \<and> optarg ! Suc i = CHR ''/'') \<and>
    src = take i optarg \<and> dst = drop (Suc i) optarg \<and>
    k (trace s) (Stat src) = (r0, m) \<and> 0 \<le> r0"
  show "if S_ISDIR m then
         0 \<le> fst (k (trace s @ [(Stat src, r0)]) (Lstat dst)) \<longrightarrow>
           (\<exists>r r'. 0 \<le> r \<and>
              trace (snd (opt_b k v optarg s)) = trace s @
                [(Stat src, r0), (Lstat dst, r),
                 (Mount src dst None (MS_REC OR MS_BIND) None, r')] \<and>
              (0 \<le> r' \<longrightarrow> fst (opt_b k v optarg s) = Inr v))
       else
         (\<exists>fd rest.
            trace (snd (opt_b k v optarg s)) = trace s @
              (Stat src, r0) # (Open dst (O_WRONLY OR O_CREAT) (Some mode_0666), fd) # rest \<and>
            (O_WRONLY OR O_CREAT) AND O_EXCL = 0 \<and>
            (0 \<le> fd \<longrightarrow>
               (\<exists>c rest'. rest = (Close fd, c) # rest' \<and>
                  (0 \<le> c \<longrightarrow>
                     (\<exists>r'. rest' = [(Mount src dst None MS_BIND None, r')] \<and>
                        (0 \<le> r' \<longrightarrow> fst (opt_b k v optarg s) = Inr v))))))"
  proof (cases "S_ISDIR m")
    case True
    from h have "strchr optarg CHR ''='' = Some i"
      "\<not> (Suc i < length optarg \<and> optarg ! Suc i = CHR ''/'')"
      "src = take i optarg" "dst = drop (Suc i) optarg"
      "k (trace s) (Stat src) = (r0, m)" "0 \<le> r0"
      by blast+
    from opt_b_existing_dir [where k = k and s = s and v = v, OF this True] True
    show ?thesis by simp
  next
    case False
    from h have "strchr optarg CHR ''='' = Some i"
      "\<not> (Suc i < length optarg \<and> optarg ! Suc i = CHR ''/'')"
      "src = take i optarg" "dst = drop (Suc i) optarg"
      "k (trace s) (Stat src) = (r0, m)" "0 \<le> r0"
      by blast+
    from opt_b_existing_file [where k = k and s = s and v = v, OF this False] False
    show ?thesis by simp
  qed
next
  assume "\<forall>tr p. 0 \<le> fst (k tr (Lstat p)) \<and> snd (k tr (Lstat p)) AND S_IFDIR \<noteq> 0"
  then show "\<exists>new. trace (snd (recursive_mkdir k dir mode s)) = trace s @ new \<and>
         (\<forall>e\<in>set new. \<exists>p. fst e = Lstat p) \<and>
         (length dir < 1024 \<longrightarrow> fst (recursive_mkdir k dir mode s) = Inr ())"
    unfolding recursive_mkdir_def by (rule recursive_mkdir_loop_existing)
qed

text \<open>
  The theorem on a sandbox root used before, at \<^verbatim>\<open>-t tmp\<close>, \<^verbatim>\<open>-b /usr=usr\<close>,
  \<^verbatim>\<open>-b /etc/resolv.conf=etc/resolv.conf\<close> and \<^verbatim>\<open>recursive_mkdir("tmp/work")\<close>.
\<close>

theorem existing_target_not_created_witness:
  "0 \<le> fst (kernel_rerun [] (Lstat ''tmp'')) \<and>
   opt_t kernel_rerun \<lparr>verbose = True, root_set = True, child_dir = None, binary = None\<rparr> ''tmp'' \<lparr>trace = [], err = []\<rparr> =
     (Inr \<lparr>verbose = True, root_set = True, child_dir = None, binary = None\<rparr>,
      \<lparr>trace = [(Lstat ''tmp'', 0),
                (Mount ''sandbox-tmp'' ''tmp'' (Some ''tmpfs'')
                   (MS_NOSUID OR MS_NOEXEC OR MS_NOATIME)
                   (Some ''size=16m,nr_inodes=16k,mode=755''), 0)],
        err = [Info (''tmp: tmp'' @ nl)]\<rparr>) \<and>
   strchr ''/usr=usr'' CHR ''='' = Some 4 \<and>
   kernel_rerun [] (Stat ''/usr'') = (0, 0x41ED) \<and> S_ISDIR 0x41ED \<and>
   0 \<le> fst (kernel_rerun [(Stat ''/usr'', 0)] (Lstat ''usr'')) \<and>
   opt_b kernel_rerun \<lparr>verbose = True, root_set = True, child_dir = None, binary = None\<rparr> ''/usr=usr'' \<lparr>trace = [], err = []\<rparr> =
     (Inr \<lparr>verbose = True, root_set = True, child_dir = None, binary = None\<rparr>,
      \<lparr>trace = [(Stat ''/usr'', 0), (Lstat ''usr'', 0),
                (Mount ''/usr'' ''usr'' None (MS_REC OR MS_BIND) None, 0)],
        err = [Info (''mount: /usr => usr'' @ nl)]\<rparr>) \<and>
   strchr ''/etc/resolv.conf=etc/resolv.conf'' CHR ''='' = Some 16 \<and>
   kernel_rerun [] (Stat ''/etc/resolv.conf'') = (0, 0x81A4) \<and> \<not> S_ISDIR 0x81A4 \<and>
   opt_b kernel_rerun \<lparr>verbose = True, root_set = True, child_dir = None, binary = None\<rparr> ''/etc/resolv.conf=etc/resolv.conf'' \<lparr>trace = [], err = []\<rparr> =
     (Inr \<lparr>verbose = True, root_set = True, child_dir = None, binary = None\<rparr>,
      \<lparr>trace = [(Stat ''/etc/resolv.conf'', 0),
                (Open ''etc/resolv.conf'' (O_WRONLY OR O_CREAT) (Some mode_0666), 3),
                (Close 3, 0),
                (Mount ''/etc/resolv.conf'' ''etc/resolv.conf'' None MS_BIND None, 0)],
        err = [Info (''mount: /etc/resolv.conf => etc/resolv.conf'' @ nl)]\<rparr>) \<and>
   (\<forall>tr p. 0 \<le> fst (kernel_rerun tr (Lstat p)) \<and>
      snd (kernel_rerun tr (Lstat p)) AND S_IFDIR \<noteq> 0) \<and>
   length ''tmp/work'' < 1024 \<and>
   recursive_mkdir kernel_rerun ''tmp/work'' mode_0755 \<lparr>trace = [], err = []\<rparr> =
     (Inr (), \<lparr>trace = [(Lstat ''tmp'', 0), (Lstat ''tmp/work'', 0)], err = []\<rparr>)"
proof -
  have t: "0 \<le> fst (kernel_rerun (trace \<lparr>trace = [], err = []\<rparr>) (Lstat ''tmp''))"
    by (simp add: kernel_rerun_def)
  have d: "strchr ''/usr=usr'' CHR ''='' = Some 4 \<and>
      \<not> (Suc 4 < length ''/usr=usr'' \<and> ''/usr=usr'' ! Suc 4 = CHR ''/'') \<and>
      ''/usr'' = take 4 ''/usr=usr'' \<and> ''usr'' = drop (Suc 4) ''/usr=usr'' \<and>
      kernel_rerun (trace \<lparr>trace = [], err = []\<rparr>) (Stat ''/usr'') = (0, 0x41ED) \<and> (0::int) \<le> 0"
    by (simp add: strchr_def kernel_rerun_def kernel_fresh_def)
  have dm: "S_ISDIR 0x41ED" by (simp add: S_ISDIR_def S_IFMT_def S_IFDIR_def)
  have dl: "0 \<le> fst (kernel_rerun (trace \<lparr>trace = [], err = []\<rparr> @ [(Stat ''/usr'', 0)]) (Lstat ''usr''))"
    by (simp add: kernel_rerun_def)
  have f: "strchr ''/etc/resolv.conf=etc/resolv.conf'' CHR ''='' = Some 16 \<and>
      \<not> (Suc 16 < length ''/etc/resolv.conf=etc/resolv.conf'' \<and>
         ''/etc/resolv.conf=etc/resolv.conf'' ! Suc 16 = CHR ''/'') \<and>
      ''/etc/resolv.conf'' = take 16 ''/etc/resolv.conf=etc/resolv.conf'' \<and>
      ''etc/resolv.conf'' = drop (Suc 16) ''/etc/resolv.conf=etc/resolv.conf'' \<and>
      kernel_rerun (trace \<lparr>trace = [], err = []\<rparr>) (Stat ''/etc/resolv.conf'') = (0, 0x81A4) \<and> (0::int) \<le> 0"
    by (simp add: strchr_def kernel_rerun_def kernel_fresh_def)
  have fm: "\<not> S_ISDIR 0x81A4" by (simp add: S_ISDIR_def S_IFMT_def S_IFDIR_def)
  have r: "\<forall>tr p. 0 \<le> fst (kernel_rerun tr (Lstat p)) \<and>
      snd (kernel_rerun tr (Lstat p)) AND S_IFDIR \<noteq> 0"
    by (simp add: kernel_rerun_def S_IFDIR_def)
  from existing_target_not_created [where k = kernel_rerun and s = "\<lparr>trace = [], err = []\<rparr>" and v = "\<lparr>verbose = True, root_set = True, child_dir = None, binary = None\<rparr>"
      and tmp = "''tmp''", THEN conjunct1, THEN mp, OF t]
  have e1: "\<exists>r r'. 0 \<le> r \<and>
      trace (snd (opt_t kernel_rerun \<lparr>verbose = True, root_set = True, child_dir = None, binary = None\<rparr> ''tmp'' \<lparr>trace = [], err = []\<rparr>)) = trace \<lparr>trace = [], err = []\<rparr> @
        [(Lstat ''tmp'', r),
         (Mount ''sandbox-tmp'' ''tmp'' (Some ''tmpfs'') (MS_NOSUID OR MS_NOEXEC OR MS_NOATIME)
            (Some ''size=16m,nr_inodes=16k,mode=755''), r')] \<and>
      (0 \<le> r' \<longrightarrow> fst (opt_t kernel_rerun \<lparr>verbose = True, root_set = True, child_dir = None, binary = None\<rparr> ''tmp'' \<lparr>trace = [], err = []\<rparr>) = Inr \<lparr>verbose = True, root_set = True, child_dir = None, binary = None\<rparr>)" .
  from existing_target_not_created [where k = kernel_rerun and s = "\<lparr>trace = [], err = []\<rparr>" and v = "\<lparr>verbose = True, root_set = True, child_dir = None, binary = None\<rparr>"
      and optarg = "''/usr=usr''" and i = 4 and src = "''/usr''" and dst = "''usr''"
      and ?r0.0 = 0 and m = "0x41ED",
      THEN conjunct2, THEN conjunct1, THEN mp, OF d] dm dl
  have e2: "\<exists>r r'. 0 \<le> r \<and>
      trace (snd (opt_b kernel_rerun \<lparr>verbose = True, root_set = True, child_dir = None, binary = None\<rparr> ''/usr=usr'' \<lparr>trace = [], err = []\<rparr>)) = trace \<lparr>trace = [], err = []\<rparr> @
        [(Stat ''/usr'', 0), (Lstat ''usr'', r),
         (Mount ''/usr'' ''usr'' None (MS_REC OR MS_BIND) None, r')] \<and>
      (0 \<le> r' \<longrightarrow> fst (opt_b kernel_rerun \<lparr>verbose = True, root_set = True, child_dir = None, binary = None\<rparr> ''/usr=usr'' \<lparr>trace = [], err = []\<rparr>) = Inr \<lparr>verbose = True, root_set = True, child_dir = None, binary = None\<rparr>)"
    by simp
  from existing_target_not_created [where k = kernel_rerun and s = "\<lparr>trace = [], err = []\<rparr>" and v = "\<lparr>verbose = True, root_set = True, child_dir = None, binary = None\<rparr>"
      and optarg = "''/etc/resolv.conf=etc/resolv.conf''" and i = 16
      and src = "''/etc/resolv.conf''" and dst = "''etc/resolv.conf''"
      and ?r0.0 = 0 and m = "0x81A4",
      THEN conjunct2, THEN conjunct1, THEN mp, OF f] fm
  have e3: "\<exists>fd rest.
      trace (snd (opt_b kernel_rerun \<lparr>verbose = True, root_set = True, child_dir = None, binary = None\<rparr> ''/etc/resolv.conf=etc/resolv.conf'' \<lparr>trace = [], err = []\<rparr>)) = trace \<lparr>trace = [], err = []\<rparr> @
        (Stat ''/etc/resolv.conf'', 0) #
        (Open ''etc/resolv.conf'' (O_WRONLY OR O_CREAT) (Some mode_0666), fd) # rest"
    by auto
  from existing_target_not_created [where k = kernel_rerun and s = "\<lparr>trace = [], err = []\<rparr>"
      and dir = "''tmp/work''" and mode = mode_0755,
      THEN conjunct2, THEN conjunct2, THEN mp, OF r]
  have e4: "\<exists>new. trace (snd (recursive_mkdir kernel_rerun ''tmp/work'' mode_0755 \<lparr>trace = [], err = []\<rparr>)) =
      trace \<lparr>trace = [], err = []\<rparr> @ new \<and> (\<forall>e\<in>set new. \<exists>p. fst e = Lstat p) \<and>
      (length ''tmp/work'' < 1024 \<longrightarrow>
         fst (recursive_mkdir kernel_rerun ''tmp/work'' mode_0755 \<lparr>trace = [], err = []\<rparr>) = Inr ())" .
  have t': "0 \<le> fst (kernel_rerun [] (Lstat ''tmp''))"
    by (simp add: kernel_rerun_def)
  have d1: "strchr ''/usr=usr'' CHR ''='' = Some 4" by (simp add: strchr_def)
  have d2: "kernel_rerun [] (Stat ''/usr'') = (0, 0x41ED)"
    by (simp add: kernel_rerun_def kernel_fresh_def)
  have d3: "0 \<le> fst (kernel_rerun [(Stat ''/usr'', 0)] (Lstat ''usr''))"
    by (simp add: kernel_rerun_def)
  have f1: "strchr ''/etc/resolv.conf=etc/resolv.conf'' CHR ''='' = Some 16"
    by (simp add: strchr_def)
  have f2: "kernel_rerun [] (Stat ''/etc/resolv.conf'') = (0, 0x81A4)"
    by (simp add: kernel_rerun_def kernel_fresh_def)
  have l: "length ''tmp/work'' < 1024" by simp
  from e1 e2 e3 e4 t' opt_t_rerun d1 d2 dm d3 opt_b_rerun_dir f1 f2 fm opt_b_rerun_file r l
    recursive_mkdir_rerun
  show ?thesis by (intro conjI)
qed

subsection \<open>C9: the quota of the tmpfs is fixed\<close>

text \<open>
  C9. A mount with a filesystem type, in any run, is the tmpfs \<^verbatim>\<open>sandbox-tmp\<close> with
  the data \<^verbatim>\<open>size=16m,nr_inodes=16k,mode=755\<close>; and a \<^verbatim>\<open>-t\<close> that returns has made
  that mount, with these data, on the path it was given: the argument of \<^verbatim>\<open>-t\<close> is the
  mount point and nothing else.
\<close>

theorem tmpfs_quota_fixed:
  "((Mount src tgt (Some fs) fl d, r) \<in> set (trace (snd (run k uid gid argv))) \<longrightarrow>
      src = ''sandbox-tmp'' \<and> fs = ''tmpfs'' \<and> d = Some ''size=16m,nr_inodes=16k,mode=755'') \<and>
   (opt_t k v optarg s = (Inr v', s') \<longrightarrow>
      (\<exists>fl' r'. last (trace s') =
         (Mount ''sandbox-tmp'' optarg (Some ''tmpfs'') fl'
            (Some ''size=16m,nr_inodes=16k,mode=755''), r') \<and> 0 \<le> r'))"
proof (intro conjI impI)
  assume "(Mount src tgt (Some fs) fl d, r) \<in> set (trace (snd (run k uid gid argv)))"
  then have "pre_call (Mount src tgt (Some fs) fl d) \<or> tail_call (Mount src tgt (Some fs) fl d)"
    by (rule run_events)
  then show "src = ''sandbox-tmp''" "fs = ''tmpfs''" "d = Some ''size=16m,nr_inodes=16k,mode=755''"
    by auto
next
  assume "opt_t k v optarg s = (Inr v', s')"
  from opt_t_Inr [OF this]
  show "\<exists>fl' r'. last (trace s') =
         (Mount ''sandbox-tmp'' optarg (Some ''tmpfs'') fl'
            (Some ''size=16m,nr_inodes=16k,mode=755''), r') \<and> 0 \<le> r'"
    by blast
qed

text \<open>The theorem at \<^verbatim>\<open>mkbox -s /srv/sandbox -t tmp /bin/sh\<close> and at its \<^verbatim>\<open>-t tmp\<close>.\<close>

theorem tmpfs_quota_fixed_witness:
  "(Mount ''sandbox-tmp'' ''tmp'' (Some ''tmpfs'') (MS_NOSUID OR MS_NOEXEC OR MS_NOATIME)
      (Some ''size=16m,nr_inodes=16k,mode=755''), 0)
     \<in> set (trace (snd (run kernel_fresh 1000 1000
           [''mkbox'', ''-s'', ''/srv/sandbox'', ''-t'', ''tmp'', ''/bin/sh'']))) \<and>
   (\<exists>fl' r'. last (trace (snd (opt_t kernel_fresh
        \<lparr>verbose = True, root_set = True, child_dir = None, binary = None\<rparr> ''tmp''
        \<lparr>trace = [], err = []\<rparr>))) =
      (Mount ''sandbox-tmp'' ''tmp'' (Some ''tmpfs'') fl'
         (Some ''size=16m,nr_inodes=16k,mode=755''), r') \<and> 0 \<le> r')"
proof -
  have m: "(Mount ''sandbox-tmp'' ''tmp'' (Some ''tmpfs'') (MS_NOSUID OR MS_NOEXEC OR MS_NOATIME)
      (Some ''size=16m,nr_inodes=16k,mode=755''), 0)
     \<in> set (trace (snd (run kernel_fresh 1000 1000
           [''mkbox'', ''-s'', ''/srv/sandbox'', ''-t'', ''tmp'', ''/bin/sh''])))"
    by (simp add: run_fresh_tmp)
  from tmpfs_quota_fixed [THEN conjunct2, rule_format, OF opt_t_fresh] m
  show ?thesis by (simp add: opt_t_fresh)
qed

subsection \<open>C10: the check of a \<^verbatim>\<open>-b\<close> argument is syntactic\<close>

text \<open>
  C10. \<^verbatim>\<open>case 'b'\<close> ends in the \<^verbatim>\<open>errorf\<close> exit, with no call made, if and only if
  the argument has no \<^verbatim>\<open>=\<close> or the byte after its first \<^verbatim>\<open>=\<close> is \<^verbatim>\<open>/\<close>. An
  argument \<^verbatim>\<open>src=../d\<close> is accepted: \<^verbatim>\<open>stat(src)\<close> is called.
\<close>

theorem bind_arg_check_is_syntactic:
  "((\<exists>msg. opt_b k v optarg s = (Inl (Exited 255), s\<lparr>err := err s @ [Errorf msg]\<rparr>)) \<longleftrightarrow>
      (CHR ''='' \<notin> set optarg \<or>
       (\<exists>src d. optarg = src @ ''=/'' @ d \<and> CHR ''='' \<notin> set src))) \<and>
   (CHR ''='' \<notin> set src' \<longrightarrow>
      (\<exists>r rest. trace (snd (opt_b k v (src' @ ''=../'' @ d') s)) =
         trace s @ (Stat src', r) # rest))"
proof
  show "(\<exists>msg. opt_b k v optarg s = (Inl (Exited 255), s\<lparr>err := err s @ [Errorf msg]\<rparr>)) \<longleftrightarrow>
      (CHR ''='' \<notin> set optarg \<or>
       (\<exists>src d. optarg = src @ ''=/'' @ d \<and> CHR ''='' \<notin> set src))"
    by (rule opt_b_rejects_iff)
  show "CHR ''='' \<notin> set src' \<longrightarrow>
      (\<exists>r rest. trace (snd (opt_b k v (src' @ ''=../'' @ d') s)) =
         trace s @ (Stat src', r) # rest)"
  proof
    assume n: "CHR ''='' \<notin> set src'"
    then have i: "strchr (src' @ ''=../'' @ d') CHR ''='' = Some (length src')"
      by (simp add: strchr_append)
    then have "\<not> bad_bind_arg (src' @ ''=../'' @ d')"
      by (simp add: bad_bind_arg_iff nth_append)
    from opt_b_accepts [OF this, of k v s] i
    show "\<exists>r rest. trace (snd (opt_b k v (src' @ ''=../'' @ d') s)) =
         trace s @ (Stat src', r) # rest"
      by auto
  qed
qed

text \<open>
  The theorem at \<^verbatim>\<open>-b /usr=../x\<close> on a fresh sandbox root: the directories \<^verbatim>\<open>..\<close> and
  \<^verbatim>\<open>../x\<close> are made and \<^verbatim>\<open>/usr\<close> is mounted on \<^verbatim>\<open>../x\<close>.
\<close>

theorem bind_arg_check_is_syntactic_witness:
  "CHR ''='' \<notin> set ''/usr'' \<and>
   (\<exists>r rest. trace (snd (opt_b kernel_fresh
        \<lparr>verbose = True, root_set = True, child_dir = None, binary = None\<rparr> ''/usr=../x''
        \<lparr>trace = [], err = []\<rparr>)) = (Stat ''/usr'', r) # rest) \<and>
   opt_b kernel_fresh \<lparr>verbose = True, root_set = True, child_dir = None, binary = None\<rparr>
     ''/usr=../x'' \<lparr>trace = [], err = []\<rparr> =
     (Inr \<lparr>verbose = True, root_set = True, child_dir = None, binary = None\<rparr>,
      \<lparr>trace = [(Stat ''/usr'', 0), (Lstat ''../x'', - 1), (Lstat ''..'', - 1),
                (Mkdir ''..'' mode_0755, 0), (Lstat ''../x'', - 1), (Mkdir ''../x'' mode_0755, 0),
                (Mount ''/usr'' ''../x'' None (MS_REC OR MS_BIND) None, 0)],
        err = [Info (''mount: /usr => ../x'' @ nl)]\<rparr>)"
proof -
  have n: "CHR ''='' \<notin> set ''/usr''" by simp
  from bind_arg_check_is_syntactic [of kernel_fresh _ "''/usr=../x''" "\<lparr>trace = [], err = []\<rparr>"
      "''/usr''" "''x''", THEN conjunct2, rule_format, OF n]
  have "\<exists>r rest. trace (snd (opt_b kernel_fresh
        \<lparr>verbose = True, root_set = True, child_dir = None, binary = None\<rparr> ''/usr=../x''
        \<lparr>trace = [], err = []\<rparr>)) = (Stat ''/usr'', r) # rest"
    by simp
  moreover have "opt_b kernel_fresh \<lparr>verbose = True, root_set = True, child_dir = None, binary = None\<rparr>
     ''/usr=../x'' \<lparr>trace = [], err = []\<rparr> =
     (Inr \<lparr>verbose = True, root_set = True, child_dir = None, binary = None\<rparr>,
      \<lparr>trace = [(Stat ''/usr'', 0), (Lstat ''../x'', - 1), (Lstat ''..'', - 1),
                (Mkdir ''..'' mode_0755, 0), (Lstat ''../x'', - 1), (Mkdir ''../x'' mode_0755, 0),
                (Mount ''/usr'' ''../x'' None (MS_REC OR MS_BIND) None, 0)],
        err = [Info (''mount: /usr => ../x'' @ nl)]\<rparr>)"
    by (simp add: prog_defs kernel_fresh_def)
  ultimately show ?thesis using n by blast
qed

end
